theory Spec2Isabelle
  imports Main "HOL-Library.Char_ord" "HOL-Library.List_Lexorder"
begin

section \<open>JavaScript values as the router sees them\<close>

text \<open>
  Strings are \<open>string\<close> and hold ASCII text; an absent property (\<open>undefined\<close>) is
  \<open>None\<close>. The webhook timestamp (\<open>entry.time\<close>) is an integer number of milliseconds
  (of magnitude below \<open>2\<^sup>5\<^sup>3\<close>, which a JavaScript number holds and renders exactly) or
  absent. A template literal renders an integer in decimal and \<open>undefined\<close> as the word
  itself.
\<close>

definition digit :: "nat \<Rightarrow> char" where
  "digit d = ''0123456789'' ! d"

fun show_nat :: "nat \<Rightarrow> string" where
  "show_nat n = (if n < 10 then [digit n] else show_nat (n div 10) @ [digit (n mod 10)])"

declare show_nat.simps [simp del]

definition show_int :: "int \<Rightarrow> string" where
  "show_int i = (if i < 0 then CHR ''-'' # show_nat (nat (- i)) else show_nat (nat i))"

definition template_num :: "int option \<Rightarrow> string" where
  "template_num v = (case v of None \<Rightarrow> ''undefined'' | Some i \<Rightarrow> show_int i)"

section \<open>utils/trackers.js: class MessageTracker\<close>

record entry =
  timestamp :: int
  etype :: "string option"
  expiresAt :: int

record dailyCounts =
  messages :: nat
  comments :: nat
  postbacks :: nat
  duplicates :: nat

record MessageTracker =
  messageHistory :: "string \<rightharpoonup> entry"
  commentHistory :: "string \<rightharpoonup> entry"
  postbackHistory :: "string \<rightharpoonup> entry"
  dailyCounts :: dailyCounts
  lastReset :: string

text \<open>
  The wall clock is an argument: \<open>now\<close> is the value of \<open>Date.now()\<close> during the call and
  \<open>today\<close> the formatted date \<open>moment().tz(...).format('YYYY-MM-DD')\<close>.
\<close>

definition zeroCounts :: dailyCounts where
  "zeroCounts = \<lparr>messages = 0, comments = 0, postbacks = 0, duplicates = 0\<rparr>"

definition newTracker :: "string \<Rightarrow> MessageTracker" where
  "newTracker today =
     \<lparr>messageHistory = Map.empty, commentHistory = Map.empty, postbackHistory = Map.empty,
      dailyCounts = zeroCounts, lastReset = today\<rparr>"

definition countDuplicate :: "MessageTracker \<Rightarrow> MessageTracker" where
  \<comment> \<open>\<open>this.dailyCounts.duplicates++\<close>\<close>
  "countDuplicate t = t\<lparr>dailyCounts := (dailyCounts t)\<lparr>duplicates := duplicates (dailyCounts t) + 1\<rparr>\<rparr>"

definition dropExpired :: "int \<Rightarrow> (string \<rightharpoonup> entry) \<Rightarrow> (string \<rightharpoonup> entry)" where
  \<comment> \<open>one loop of \<open>cleanOldEntries\<close>: delete every entry with \<open>expiresAt < now\<close>\<close>
  "dropExpired now h =
     (\<lambda>k. case h k of None \<Rightarrow> None
          | Some d \<Rightarrow> if expiresAt d < now then None else Some d)"

definition cleanOldEntries :: "int \<Rightarrow> MessageTracker \<Rightarrow> MessageTracker" where
  "cleanOldEntries now t =
     t\<lparr>messageHistory := dropExpired now (messageHistory t),
       commentHistory := dropExpired now (commentHistory t),
       postbackHistory := dropExpired now (postbackHistory t)\<rparr>"

definition messageKey :: "string \<Rightarrow> int option \<Rightarrow> string" where
  \<comment> \<open>\<open>`${senderId}_${timestamp}`\<close>\<close>
  "messageKey senderId ts = senderId @ ''_'' @ template_num ts"

definition isDuplicate ::
  "string \<Rightarrow> int option \<Rightarrow> string \<Rightarrow> int \<Rightarrow> MessageTracker \<Rightarrow> bool \<times> MessageTracker" where
  "isDuplicate senderId ts type now t =
     (let key = messageKey senderId ts in
      if messageHistory t key \<noteq> None then (True, countDuplicate t)
      else
        let t' = cleanOldEntries now t in
        (False,
         t'\<lparr>messageHistory := (messageHistory t')
              (key \<mapsto> \<lparr>timestamp = now, etype = Some type, expiresAt = now + 300000\<rparr>)\<rparr>))"

definition isDuplicateComment :: "string \<Rightarrow> int \<Rightarrow> MessageTracker \<Rightarrow> bool \<times> MessageTracker" where
  "isDuplicateComment commentId now t =
     (if commentHistory t commentId \<noteq> None then (True, countDuplicate t)
      else
        (False,
         t\<lparr>commentHistory := (commentHistory t)
              (commentId \<mapsto> \<lparr>timestamp = now, etype = None, expiresAt = now + 300000\<rparr>)\<rparr>))"

definition checkDailyReset :: "string \<Rightarrow> MessageTracker \<Rightarrow> MessageTracker" where
  "checkDailyReset today t =
     (if today \<noteq> lastReset t then t\<lparr>dailyCounts := zeroCounts, lastReset := today\<rparr> else t)"

definition track :: "string \<Rightarrow> int option \<Rightarrow> string \<Rightarrow> string \<Rightarrow> MessageTracker \<Rightarrow> MessageTracker" where
  "track senderId ts type today t =
     (let t' = checkDailyReset today t; c = dailyCounts t' in
      if type = ''message'' then t'\<lparr>dailyCounts := c\<lparr>messages := messages c + 1\<rparr>\<rparr>
      else if type = ''comment'' then t'\<lparr>dailyCounts := c\<lparr>comments := comments c + 1\<rparr>\<rparr>
      else if type = ''postback'' then t'\<lparr>dailyCounts := c\<lparr>postbacks := postbacks c + 1\<rparr>\<rparr>
      else t')"

definition trackComment :: "string \<Rightarrow> string \<Rightarrow> MessageTracker \<Rightarrow> MessageTracker" where
  "trackComment commentId today t =
     (let t' = checkDailyReset today t; c = dailyCounts t' in
      t'\<lparr>dailyCounts := c\<lparr>comments := comments c + 1\<rparr>\<rparr>)"

definition trackPostback :: "string \<Rightarrow> string \<Rightarrow> MessageTracker \<Rightarrow> MessageTracker" where
  "trackPostback senderId today t =
     (let t' = checkDailyReset today t; c = dailyCounts t' in
      t'\<lparr>dailyCounts := c\<lparr>postbacks := postbacks c + 1\<rparr>\<rparr>)"

section \<open>JSON values, outbound effects and failing computations\<close>

text \<open>A parsed payload; its numbers are integers.\<close>

datatype json = JNull | JBool bool | JNum int | JStr string | JArr "json list" | JObj "(string \<times> json) list"

definition quote :: "string \<Rightarrow> string" where
  \<comment> \<open>a JSON string literal: double quote and backslash are escaped\<close>
  "quote s =
     CHR 0x22 # concat (map (\<lambda>c. if c = CHR 0x22 \<or> c = CHR 0x5C then [CHR 0x5C, c] else [c]) s) @ [CHR 0x22]"

fun stringify :: "json \<Rightarrow> string"
  and stringify_items :: "json list \<Rightarrow> string"
  and stringify_members :: "(string \<times> json) list \<Rightarrow> string" where
  "stringify JNull = ''null''"
| "stringify (JBool b) = (if b then ''true'' else ''false'')"
| "stringify (JNum i) = show_int i"
| "stringify (JStr s) = quote s"
| "stringify (JArr xs) = ''['' @ stringify_items xs @ '']''"
| "stringify (JObj kvs) = ''{'' @ stringify_members kvs @ ''}''"
| "stringify_items [] = []"
| "stringify_items [x] = stringify x"
| "stringify_items (x # y # xs) = stringify x @ '','' @ stringify_items (y # xs)"
| "stringify_members [] = []"
| "stringify_members [(k, v)] = quote k @ '':'' @ stringify v"
| "stringify_members ((k, v) # kv # kvs) = quote k @ '':'' @ stringify v @ '','' @ stringify_members (kv # kvs)"

definition JSON_stringify :: "json option \<Rightarrow> string" where
  \<comment> \<open>inside a template literal; \<open>JSON.stringify(undefined)\<close> is \<open>undefined\<close>\<close>
  "JSON_stringify v = (case v of None \<Rightarrow> ''undefined'' | Some j \<Rightarrow> stringify j)"

fun strict_eq :: "json option \<Rightarrow> json option \<Rightarrow> bool" where
  \<comment> \<open>\<open>===\<close>: primitives by value; a parsed object or array is a fresh reference, equal to
      no plugin constant\<close>
  "strict_eq None None = True"
| "strict_eq (Some JNull) (Some JNull) = True"
| "strict_eq (Some (JBool a)) (Some (JBool b)) = (a = b)"
| "strict_eq (Some (JNum a)) (Some (JNum b)) = (a = b)"
| "strict_eq (Some (JStr a)) (Some (JStr b)) = (a = b)"
| "strict_eq _ _ = False"

definition isDuplicatePostback ::
  "string \<Rightarrow> json option \<Rightarrow> int option \<Rightarrow> int \<Rightarrow> MessageTracker \<Rightarrow> bool \<times> MessageTracker" where
  "isDuplicatePostback senderId payload ts now t =
     (let key = senderId @ ''_'' @ JSON_stringify payload @ ''_'' @ template_num ts in
      if postbackHistory t key \<noteq> None then (True, countDuplicate t)
      else
        (False,
         t\<lparr>postbackHistory := (postbackHistory t)
              (key \<mapsto> \<lparr>timestamp = now, etype = None, expiresAt = now + 300000\<rparr>)\<rparr>))"

datatype error = TypeError string | Error string

text \<open>
  What a handler does to the outside world is a list of effects in order: a call of
  \<open>fbApi.sendMessage(recipient, text)\<close>, and the router's calls of a plugin's \<open>start\<close> or
  \<open>run\<close> (named by the plugin's registry key). An asynchronous function is the effects it
  performed together with how it settled: \<open>Inr\<close> fulfilled, \<open>Inl\<close> rejected. Logging is
  not modelled.
\<close>

datatype effect = SendMessage string string | PluginStart string | PluginRun string

type_synonym 'a io = "effect list \<times> (error + 'a)"

definition io_return :: "'a \<Rightarrow> 'a io" where
  "io_return x = ([], Inr x)"

definition io_throw :: "error \<Rightarrow> 'a io" where
  "io_throw e = ([], Inl e)"

definition io_bind :: "'a io \<Rightarrow> ('a \<Rightarrow> 'b io) \<Rightarrow> 'b io" where
  \<comment> \<open>\<open>await m; f\<close>: a rejection of \<open>m\<close> skips \<open>f\<close>\<close>
  "io_bind m f =
     (case m of (t, Inl e) \<Rightarrow> (t, Inl e)
      | (t, Inr x) \<Rightarrow> (case f x of (t', r) \<Rightarrow> (t @ t', r)))"

definition io_catch :: "'a io \<Rightarrow> (error \<Rightarrow> 'a io) \<Rightarrow> 'a io" where
  \<comment> \<open>\<open>try { m } catch (error) { h }\<close>\<close>
  "io_catch m h =
     (case m of (t, Inl e) \<Rightarrow> (case h e of (t', r) \<Rightarrow> (t @ t', r))
      | (t, Inr x) \<Rightarrow> (t, Inr x))"

section \<open>Plugins and the plugin loader (utils/pluginLoader.js)\<close>

record config =
  name :: "string option"
  aliases :: "string list option"
  category :: "string option"

record commentData =
  commentId :: string
  postId :: string
  senderId :: string
  senderName :: string
  message :: string
  createdAt :: string

datatype start_args =
  CommandArgs string "string list" string
  | PostbackArgs string string json

text \<open>
  A plugin module is duck-typed: each property may be absent. \<open>name\<close> is \<open>None\<close> when
  \<open>config.name\<close> is not a string; \<open>start\<close> and \<open>run\<close> are \<open>None\<close> when they are not
  functions. A plugin function is given by the effects it performs and how it settles.
\<close>

record plugin =
  config :: "config option"
  payload :: "json option"
  start :: "(start_args \<Rightarrow> unit io) option"
  run :: "(commentData \<Rightarrow> bool io) option"
  dependencies :: "string list option"
  constructor_name :: "string option"

datatype ptype = Commands | Postbacks | Comments

definition type_name :: "ptype \<Rightarrow> string" where
  "type_name ty = (case ty of Commands \<Rightarrow> ''commands'' | Postbacks \<Rightarrow> ''postbacks'' | Comments \<Rightarrow> ''comments'')"

text \<open>
  A JavaScript \<open>Map\<close> keeps insertion order: an association list with distinct keys in
  which \<open>set\<close> of a present key replaces the value in place. A registered value is the
  copy \<open>{...plugin, meta}\<close> of the module, which has the module's own properties (a module
  is taken to have no inherited ones), with its \<open>meta.name\<close>, which is the key.
\<close>

fun map_set :: "'k \<Rightarrow> 'v \<Rightarrow> ('k \<times> 'v) list \<Rightarrow> ('k \<times> 'v) list" where
  "map_set k v [] = [(k, v)]"
| "map_set k v ((k', v') # m) = (if k = k' then (k, v) # m else (k', v') # map_set k v m)"

definition set_add :: "'k \<Rightarrow> 'k list \<Rightarrow> 'k list" where
  \<comment> \<open>\<open>Set.prototype.add\<close>\<close>
  "set_add k ks = (if k \<in> set ks then ks else ks @ [k])"

text \<open>
  The loader's fields \<open>this.plugins.commands\<close>, \<open>this.plugins.postbacks\<close>,
  \<open>this.plugins.comments\<close> and \<open>this.duplicates\<close>.
\<close>

record PluginLoader =
  commands :: "(string \<times> plugin) list"
  postbacks_ns :: "(string \<times> plugin) list"
  comments_ns :: "(string \<times> plugin) list"
  duplicates_set :: "string list"

text \<open>
  A file of a plugin directory: its name and what \<open>require\<close> gives for it, the module or
  the exception raised while it loads.
\<close>

record plugin_file =
  fileName :: string
  exports :: "error + plugin"

definition startsWith :: "string \<Rightarrow> string \<Rightarrow> bool" where
  "startsWith s p = (take (length p) s = p)"

definition endsWith :: "string \<Rightarrow> string \<Rightarrow> bool" where
  "endsWith s p = (length p \<le> length s \<and> drop (length s - length p) s = p)"

definition pluginName :: "plugin_file \<Rightarrow> string" where
  \<comment> \<open>\<open>path.basename(filePath, '.js')\<close>\<close>
  "pluginName f =
     (let n = fileName f in
      if endsWith n ''.js'' \<and> 3 < length n then take (length n - 3) n else n)"

definition validatePlugin :: "plugin \<Rightarrow> ptype \<Rightarrow> bool" where
  "validatePlugin p ty =
     (case ty of
        Commands \<Rightarrow> (case config p of None \<Rightarrow> False | Some c \<Rightarrow> name c \<noteq> None \<and> start p \<noteq> None)
      | Postbacks \<Rightarrow> payload p \<noteq> None \<and> start p \<noteq> None
      | Comments \<Rightarrow> run p \<noteq> None)"

fun join :: "string \<Rightarrow> string list \<Rightarrow> string" where
  "join sep [] = []"
| "join sep [x] = x"
| "join sep (x # y # xs) = x @ sep @ join sep (y # xs)"

definition getDuplicateKey :: "plugin \<Rightarrow> ptype \<Rightarrow> error + string" where
  \<comment> \<open>\<open>aliases.sort()\<close> compares strings by code unit, as the lexicographic order does\<close>
  "getDuplicateKey p ty =
     (case ty of
        Commands \<Rightarrow>
          (case config p of
             None \<Rightarrow> Inl (TypeError ''Cannot read properties of undefined (reading aliases)'')
           | Some c \<Rightarrow>
               let als = (case aliases c of None \<Rightarrow> [] | Some a \<Rightarrow> a) in
               Inr (type_name ty @ '':'' @ (case name c of None \<Rightarrow> ''undefined'' | Some n \<Rightarrow> n)
                    @ '':'' @ join '','' (sort als)))
      | Postbacks \<Rightarrow> Inr (type_name ty @ '':'' @ JSON_stringify (payload p))
      | Comments \<Rightarrow>
          Inr (type_name ty @ '':'' @
               (case constructor_name p of None \<Rightarrow> ''anonymous''
                | Some n \<Rightarrow> if n = [] then ''anonymous'' else n)))"

definition sortAliases :: "plugin \<Rightarrow> ptype \<Rightarrow> plugin" where
  \<comment> \<open>the side effect of \<open>getDuplicateKey\<close>: \<open>sort\<close> reorders \<open>config.aliases\<close> in place\<close>
  "sortAliases p ty =
     (case ty of
        Commands \<Rightarrow>
          (case config p of None \<Rightarrow> p
           | Some c \<Rightarrow> p\<lparr>config := Some (c\<lparr>aliases := map_option sort (aliases c)\<rparr>)\<rparr>)
      | _ \<Rightarrow> p)"

definition namespace :: "ptype \<Rightarrow> PluginLoader \<Rightarrow> (string \<times> plugin) list" where
  \<comment> \<open>\<open>this.plugins[type]\<close>\<close>
  "namespace ty L = (case ty of Commands \<Rightarrow> commands L | Postbacks \<Rightarrow> postbacks_ns L | Comments \<Rightarrow> comments_ns L)"

definition registerPlugin :: "plugin \<Rightarrow> ptype \<Rightarrow> string \<Rightarrow> PluginLoader \<Rightarrow> PluginLoader" where
  "registerPlugin p ty nm L =
     (let L' = (case ty of
                  Commands \<Rightarrow> L\<lparr>commands := map_set nm p (commands L)\<rparr>
                | Postbacks \<Rightarrow> L\<lparr>postbacks_ns := map_set nm p (postbacks_ns L)\<rparr>
                | Comments \<Rightarrow> L\<lparr>comments_ns := map_set nm p (comments_ns L)\<rparr>) in
      case getDuplicateKey p ty of
        Inl e \<Rightarrow> L'
      | Inr k \<Rightarrow> L'\<lparr>duplicates_set := set_add k (duplicates_set L')\<rparr>)"

definition loadPlugin :: "plugin_file \<Rightarrow> ptype \<Rightarrow> PluginLoader \<Rightarrow> PluginLoader" where
  \<comment> \<open>every exception is caught and logged inside \<open>loadPlugin\<close>; \<open>installDependencies\<close>
      does not touch the loader\<close>
  "loadPlugin file ty L =
     (case exports file of
        Inl e \<Rightarrow> L
      | Inr p \<Rightarrow>
          if \<not> validatePlugin p ty then L
          else
            (case getDuplicateKey p ty of
               Inl e \<Rightarrow> L
             | Inr duplicateKey \<Rightarrow>
                 if duplicateKey \<in> set (duplicates_set L) then L
                 else registerPlugin (sortAliases p ty) ty (pluginName file) L))"

definition installsDependencies :: "bool \<Rightarrow> plugin_file \<Rightarrow> ptype \<Rightarrow> PluginLoader \<Rightarrow> bool" where
  \<comment> \<open>whether \<open>loadPlugin\<close> reaches \<open>await execPromise(installCmd)\<close>, where it is suspended
      until the child process ends, before it registers the plugin\<close>
  "installsDependencies autoInstallDeps file ty L =
     (case exports file of
        Inl e \<Rightarrow> False
      | Inr p \<Rightarrow>
          validatePlugin p ty \<and>
          (case getDuplicateKey p ty of Inl e \<Rightarrow> False | Inr k \<Rightarrow> k \<notin> set (duplicates_set L)) \<and>
          autoInstallDeps \<and>
          (case dependencies p of None \<Rightarrow> False | Some ds \<Rightarrow> ds \<noteq> []))"

fun loadFiles :: "plugin_file list \<Rightarrow> ptype \<Rightarrow> PluginLoader \<Rightarrow> PluginLoader" where
  \<comment> \<open>\<open>for (const file of files) await this.loadPlugin(...)\<close>\<close>
  "loadFiles [] ty L = L"
| "loadFiles (f # fs) ty L = loadFiles fs ty (loadPlugin f ty L)"

definition pluginFiles :: "plugin_file list \<Rightarrow> plugin_file list" where
  \<comment> \<open>the filter on \<open>fs.readdirSync(dir)\<close>\<close>
  "pluginFiles dir = filter (\<lambda>f. endsWith (fileName f) ''.js'' \<and> \<not> startsWith (fileName f) ''_'') dir"

definition loadPluginsOfType :: "ptype \<Rightarrow> plugin_file list \<Rightarrow> PluginLoader \<Rightarrow> PluginLoader" where
  "loadPluginsOfType ty dir L = loadFiles (pluginFiles dir) ty L"

record pluginPaths =
  commands_dir :: "plugin_file list"
  postbacks_dir :: "plugin_file list"
  comments_dir :: "plugin_file list"

text \<open>
  \<open>loadAllPlugins\<close> starts the three loads together. Each kind writes its own namespace, and
  its duplicate keys begin with its own type name, so the result is that of loading the
  kinds one after the other.
\<close>

definition loadAllPlugins :: "pluginPaths \<Rightarrow> PluginLoader \<Rightarrow> PluginLoader" where
  "loadAllPlugins dirs L =
     loadPluginsOfType Comments (comments_dir dirs)
       (loadPluginsOfType Postbacks (postbacks_dir dirs)
          (loadPluginsOfType Commands (commands_dir dirs) L))"

definition clearPlugins :: "PluginLoader \<Rightarrow> PluginLoader" where
  \<comment> \<open>the first statements of \<open>reloadAll\<close>: fresh empty maps, \<open>this.duplicates.clear()\<close>\<close>
  "clearPlugins L = L\<lparr>commands := [], postbacks_ns := [], comments_ns := [], duplicates_set := []\<rparr>"

definition reloadAll :: "pluginPaths \<Rightarrow> PluginLoader \<Rightarrow> PluginLoader" where
  "reloadAll dirs L = loadAllPlugins dirs (clearPlugins L)"

text \<open>
  A reload in progress. \<open>loadAllPlugins\<close> starts the loops of the three kinds together
  and awaits them all. A loop gives way to other event handlers only where \<open>loadPlugin\<close>
  awaits the child process of a dependency installation; everywhere else its \<open>await\<close>s
  resume before any other event is handled. So the states of the loader that a lookup from
  another event can see are those in which every loop is either finished or waiting for an
  installation. \<open>waiting\<close> gives, for each kind, the files from the one being installed
  on (none when the loop is finished). The order of the keys in \<open>duplicates_set\<close> stands
  for nothing: the source keeps them in a \<open>Set\<close> and asks only for membership and size.
\<close>

record reload_state =
  loader :: PluginLoader
  waiting :: "ptype \<Rightarrow> plugin_file list"

definition pluginDir :: "pluginPaths \<Rightarrow> ptype \<Rightarrow> plugin_file list" where
  \<comment> \<open>the plugin files of \<open>this.pluginPaths[type]\<close>\<close>
  "pluginDir dirs ty =
     pluginFiles (case ty of Commands \<Rightarrow> commands_dir dirs | Postbacks \<Rightarrow> postbacks_dir dirs
                   | Comments \<Rightarrow> comments_dir dirs)"

fun advance :: "bool \<Rightarrow> plugin_file list \<Rightarrow> ptype \<Rightarrow> PluginLoader \<Rightarrow> PluginLoader \<times> plugin_file list" where
  \<comment> \<open>the loop of \<open>loadPluginsOfType\<close> up to the first file whose load awaits an
      installation: the loader then, and the files from that one on\<close>
  "advance a [] ty L = (L, [])"
| "advance a (f # fs) ty L =
     (if installsDependencies a f ty L then (L, f # fs) else advance a fs ty (loadPlugin f ty L))"

definition completeLoad :: "plugin_file \<Rightarrow> ptype \<Rightarrow> PluginLoader \<Rightarrow> PluginLoader" where
  \<comment> \<open>\<open>loadPlugin\<close> after the installation: it registers the plugin; the duplicate check
      was made before the \<open>await\<close> and is not repeated\<close>
  "completeLoad file ty L =
     (case exports file of
        Inl e \<Rightarrow> L
      | Inr p \<Rightarrow> registerPlugin (sortAliases p ty) ty (pluginName file) L)"

definition runLoop :: "bool \<Rightarrow> ptype \<Rightarrow> reload_state \<Rightarrow> reload_state" where
  \<comment> \<open>the loop of one kind runs on from its next file until it waits again or ends\<close>
  "runLoop a ty Q =
     (case advance a (waiting Q ty) ty (loader Q) of
        (L', w) \<Rightarrow> Q\<lparr>loader := L', waiting := (waiting Q)(ty := w)\<rparr>)"

definition reloadAll_begin :: "bool \<Rightarrow> pluginPaths \<Rightarrow> PluginLoader \<Rightarrow> reload_state" where
  \<comment> \<open>\<open>reloadAll\<close> up to the first moment at which other events are handled\<close>
  "reloadAll_begin a dirs L =
     runLoop a Comments (runLoop a Postbacks (runLoop a Commands
       \<lparr>loader = clearPlugins L, waiting = pluginDir dirs\<rparr>))"

definition installed :: "bool \<Rightarrow> ptype \<Rightarrow> reload_state \<Rightarrow> reload_state" where
  \<comment> \<open>the installation that the loop of \<open>ty\<close> waits for ends: the loop registers the
      plugin and runs on\<close>
  "installed a ty Q =
     (case waiting Q ty of
        [] \<Rightarrow> Q
      | f # fs \<Rightarrow>
          runLoop a ty (Q\<lparr>loader := completeLoad f ty (loader Q), waiting := (waiting Q)(ty := fs)\<rparr>))"

inductive_set reloadAll_states :: "bool \<Rightarrow> pluginPaths \<Rightarrow> PluginLoader \<Rightarrow> reload_state set"
  for a :: bool and dirs :: pluginPaths and L :: PluginLoader where
  first: "reloadAll_begin a dirs L \<in> reloadAll_states a dirs L"
| later: "Q \<in> reloadAll_states a dirs L \<Longrightarrow> waiting Q ty \<noteq> [] \<Longrightarrow> installed a ty Q \<in> reloadAll_states a dirs L"

definition loadedFiles :: "pluginPaths \<Rightarrow> ptype \<Rightarrow> reload_state \<Rightarrow> plugin_file list" where
  \<comment> \<open>the files of a kind that come before the files its loop still has to load\<close>
  "loadedFiles dirs ty Q = take (length (pluginDir dirs ty) - length (waiting Q ty)) (pluginDir dirs ty)"

definition kindKey :: "ptype \<Rightarrow> string \<Rightarrow> bool" where
  \<comment> \<open>a duplicate key of the kind \<open>ty\<close>: it begins with the type name and a colon\<close>
  "kindKey ty k = startsWith k (type_name ty @ '':'')"

definition kindView :: "ptype \<Rightarrow> PluginLoader \<Rightarrow> (string \<times> plugin) list \<times> string list" where
  \<comment> \<open>what the loader holds for one kind: its namespace and its duplicate keys\<close>
  "kindView ty L = (namespace ty L, filter (kindKey ty) (duplicates_set L))"

definition getCommandPlugins :: "PluginLoader \<Rightarrow> (string \<times> plugin) list" where
  "getCommandPlugins L = namespace Commands L"

definition getPostbackPlugins :: "PluginLoader \<Rightarrow> (string \<times> plugin) list" where
  "getPostbackPlugins L = namespace Postbacks L"

definition getCommentPlugins :: "PluginLoader \<Rightarrow> (string \<times> plugin) list" where
  "getCommentPlugins L = namespace Comments L"

record stats =
  stat_commands :: nat
  stat_postbacks :: nat
  stat_comments :: nat
  stat_total :: nat
  stat_duplicates :: nat

definition getStats :: "PluginLoader \<Rightarrow> stats" where
  "getStats L =
     \<lparr>stat_commands = length (commands L), stat_postbacks = length (postbacks_ns L),
      stat_comments = length (comments_ns L),
      stat_total = length (commands L) + length (postbacks_ns L) + length (comments_ns L),
      stat_duplicates = length (duplicates_set L)\<rparr>"

definition emptyLoader :: PluginLoader where
  "emptyLoader = \<lparr>commands = [], postbacks_ns = [], comments_ns = [], duplicates_set = []\<rparr>"

definition reload_inv :: "pluginPaths \<Rightarrow> reload_state \<Rightarrow> bool" where
  \<comment> \<open>for every kind, the loader holds what loading the files before the waiting ones into
      the empty loader gives\<close>
  "reload_inv dirs Q =
     (\<forall>ty. \<exists>n\<le>length (pluginDir dirs ty).
        waiting Q ty = drop n (pluginDir dirs ty) \<and>
        kindView ty (loader Q) = kindView ty (loadFiles (take n (pluginDir dirs ty)) ty emptyLoader))"

definition reload_blocked :: "bool \<Rightarrow> reload_state \<Rightarrow> ptype \<Rightarrow> bool" where
  \<comment> \<open>a loop that has files left waits for the installation of the first of them\<close>
  "reload_blocked a Q ty =
     (waiting Q ty \<noteq> [] \<longrightarrow> installsDependencies a (hd (waiting Q ty)) ty (loader Q))"

section \<open>The event handlers (handlres/index.js)\<close>

text \<open>
  The parts of a message, a quick reply and a postback that the handlers read. The two
  coordinates of a location are kept as a template literal renders them.
\<close>

record coordinates =
  lat :: string
  long :: string

record attachment_payload =
  url :: "string option"
  coordinates :: "coordinates option"

record attachment =
  atype :: string
  apayload :: "attachment_payload option"

record quick_reply =
  qr_payload :: string

record message_body =
  msg_text :: "string option"
  attachments :: "attachment list option"
  quick_reply :: "quick_reply option"

record postback =
  pb_payload :: string

record commandData =
  command :: string
  args :: "string list"
  original :: string

text \<open>
  What the handlers read from outside: \<open>config.bot.prefix\<close> and
  \<open>config.security.adminUIDs\<close>, how \<open>userStore.getPrefix(senderId)\<close> settles, whether
  the messaging platform accepts a send, the draw of \<open>Math.floor(Math.random() * 4)\<close>,
  \<open>JSON.parse\<close> (\<open>None\<close> when it throws) and the clock.
\<close>

record env =
  bot_prefix :: string
  adminUIDs :: "string list"
  getPrefix :: "string \<Rightarrow> error + string"
  sendOk :: "string \<Rightarrow> string \<Rightarrow> bool"
  random :: nat
  JSON_parse :: "string \<Rightarrow> json option"
  now :: int
  today :: string

definition sendMessage :: "env \<Rightarrow> string \<Rightarrow> string \<Rightarrow> unit io" where
  \<comment> \<open>\<open>fbApi.sendMessage\<close> rethrows the request's error\<close>
  "sendMessage env recipientId txt =
     ([SendMessage recipientId txt],
      if sendOk env recipientId txt then Inr () else Inl (Error ''request failed''))"

definition trackMessage :: "string \<Rightarrow> string \<Rightarrow> bool \<Rightarrow> unit io" where
  \<comment> \<open>class \<open>MessageTracker\<close> defines no method of this name: the call applies \<open>undefined\<close>\<close>
  "trackMessage sid kind ok = io_throw (TypeError ''messageTracker.trackMessage is not a function'')"

definition is_space :: "char \<Rightarrow> bool" where
  \<comment> \<open>the ASCII white space of \<open>trim\<close> and \<open>\s\<close>: tab, line feed, vertical tab, form feed,
      carriage return, space\<close>
  "is_space c = (c \<in> set [CHR 0x09, CHR 0x0A, CHR 0x0B, CHR 0x0C, CHR 0x0D, CHR 0x20])"

definition trim :: "string \<Rightarrow> string" where
  "trim s = rev (dropWhile is_space (rev (dropWhile is_space s)))"

function split_ws :: "string \<Rightarrow> string list" where
  \<comment> \<open>\<open>s.split(/\s+/)\<close>\<close>
  "split_ws [] = [[]]"
| "split_ws (c # cs) =
     (if is_space c then [] # split_ws (dropWhile is_space cs)
      else (case split_ws cs of [] \<Rightarrow> [[c]] | t # ts \<Rightarrow> (c # t) # ts))"
  by pat_completeness auto
termination
  by (relation "measure length") (auto simp: less_Suc_eq_le length_dropWhile_le)

definition lower_char :: "char \<Rightarrow> char" where
  \<comment> \<open>the letters A to Z go to a to z; every other ASCII character is kept\<close>
  "lower_char c =
     (case map_of (zip ''ABCDEFGHIJKLMNOPQRSTUVWXYZ'' ''abcdefghijklmnopqrstuvwxyz'') c of
        None \<Rightarrow> c
      | Some d \<Rightarrow> d)"

definition toLowerCase :: "string \<Rightarrow> string" where
  "toLowerCase s = map lower_char s"

definition parseCommand :: "string \<Rightarrow> string \<Rightarrow> commandData option" where
  \<comment> \<open>\<open>split\<close> never returns an empty array, so \<open>args.shift()\<close> is a string\<close>
  "parseCommand txt pre =
     (if txt = [] then None
      else if pre = [] \<or> \<not> startsWith txt pre then None
      else
        let trimmed = trim (drop (length pre) txt) in
        if trimmed = [] then None
        else
          (case split_ws trimmed of
             [] \<Rightarrow> None
           | c # as \<Rightarrow> Some \<lparr>command = toLowerCase c, args = as, original = txt\<rparr>))"

definition call_start :: "string \<Rightarrow> plugin \<Rightarrow> start_args \<Rightarrow> unit io" where
  \<comment> \<open>\<open>await plugin.start(...)\<close>\<close>
  "call_start nm p a =
     (case start p of
        None \<Rightarrow> io_throw (TypeError ''plugin.start is not a function'')
      | Some f \<Rightarrow> io_bind ([PluginStart nm], Inr ()) (\<lambda>_. f a))"

definition call_run :: "string \<Rightarrow> plugin \<Rightarrow> commentData \<Rightarrow> bool io" where
  \<comment> \<open>\<open>await plugin.run(commentData)\<close>\<close>
  "call_run nm p cd =
     (case run p of
        None \<Rightarrow> io_throw (TypeError ''plugin.run is not a function'')
      | Some f \<Rightarrow> io_bind ([PluginRun nm], Inr ()) (\<lambda>_. f cd))"

definition handleUnknownCommand :: "env \<Rightarrow> string \<Rightarrow> string \<Rightarrow> unit io" where
  "handleUnknownCommand env cmd sid =
     sendMessage env sid
       (''Command '' @ [CHR 0x22] @ cmd @ [CHR 0x22] @ '' not found. Use /help to see available commands.'')"

definition responses :: "string list" where
  "responses =
     [''Thanks for your message!'', ''How can I help you today?'',
      ''You can use commands like /help to see what I can do!'',
      ''I'' @ [CHR 0x27] @ ''m here to assist you with your questions.'']"

definition handleRegularMessage :: "env \<Rightarrow> string \<Rightarrow> string \<Rightarrow> unit io" where
  "handleRegularMessage env txt sid = sendMessage env sid (responses ! (random env mod 4))"

definition commandMatches :: "plugin \<Rightarrow> string \<Rightarrow> error + bool" where
  \<comment> \<open>\<open>plugin.config.name === command || (aliases && aliases.includes(command))\<close>\<close>
  "commandMatches p cmd =
     (case config p of
        None \<Rightarrow> Inl (TypeError ''Cannot read properties of undefined (reading name)'')
      | Some c \<Rightarrow>
          Inr (name c = Some cmd \<or> (case aliases c of None \<Rightarrow> False | Some als \<Rightarrow> cmd \<in> set als)))"

fun commandLoop :: "env \<Rightarrow> (string \<times> plugin) list \<Rightarrow> commandData \<Rightarrow> string \<Rightarrow> unit io" where
  \<comment> \<open>the \<open>for\<close> loop of \<open>handleCommand\<close> and the statement after it\<close>
  "commandLoop env [] cd sid = handleUnknownCommand env (command cd) sid"
| "commandLoop env ((nm, p) # ps) cd sid =
     (case commandMatches p (command cd) of
        Inl e \<Rightarrow> io_throw e
      | Inr True \<Rightarrow>
          if (case config p of None \<Rightarrow> False | Some c \<Rightarrow> category c = Some ''admin'')
             \<and> sid \<notin> set (adminUIDs env)
          then sendMessage env sid ''You do not have permission to use this command.''
          else call_start nm p (CommandArgs sid (args cd) (original cd))
      | Inr False \<Rightarrow> commandLoop env ps cd sid)"

definition handleCommand :: "env \<Rightarrow> PluginLoader \<Rightarrow> commandData \<Rightarrow> string \<Rightarrow> string \<Rightarrow> unit io" where
  "handleCommand env L cd sid recipientId = commandLoop env (getCommandPlugins L) cd sid"

definition handleAttachment :: "env \<Rightarrow> attachment \<Rightarrow> string \<Rightarrow> unit io" where
  \<comment> \<open>the body of the loop of \<open>handleAttachments\<close>\<close>
  "handleAttachment env a sid =
     (if atype a = ''image'' then sendMessage env sid ''Thanks for the image!''
      else if atype a = ''video'' then sendMessage env sid ''Thanks for the video!''
      else if atype a = ''audio'' then sendMessage env sid ''Thanks for the audio message!''
      else if atype a = ''file'' then sendMessage env sid ''Thanks for the file!''
      else if atype a = ''location'' then
        (case apayload a of
           None \<Rightarrow> io_throw (TypeError ''Cannot read properties of undefined (reading coordinates)'')
         | Some pl \<Rightarrow>
             (case coordinates pl of
                None \<Rightarrow> io_throw (TypeError ''Cannot destructure property lat'')
              | Some co \<Rightarrow>
                  sendMessage env sid (''Thanks for sharing your location: '' @ lat co @ '', '' @ long co)))
      else io_return ())"

fun handleAttachments :: "env \<Rightarrow> attachment list \<Rightarrow> string \<Rightarrow> unit io" where
  "handleAttachments env [] sid = io_return ()"
| "handleAttachments env (a # as) sid =
     io_bind (handleAttachment env a sid) (\<lambda>_. handleAttachments env as sid)"

definition payloadMatches :: "plugin \<Rightarrow> json \<Rightarrow> error + bool" where
  \<comment> \<open>\<open>plugin.payload === payload || (typeof payload === 'object' && payload.action === plugin.payload)\<close>;
      \<open>typeof null\<close> is \<open>'object'\<close> and reading \<open>null.action\<close> throws\<close>
  "payloadMatches p pl =
     (if strict_eq (payload p) (Some pl) then Inr True
      else
        (case pl of
           JNull \<Rightarrow> Inl (TypeError ''Cannot read properties of null (reading action)'')
         | JObj kvs \<Rightarrow> Inr (strict_eq (map_of kvs ''action'') (payload p))
         | JArr xs \<Rightarrow> Inr (strict_eq None (payload p))
         | _ \<Rightarrow> Inr False))"

fun postbackLoop :: "env \<Rightarrow> (string \<times> plugin) list \<Rightarrow> json \<Rightarrow> string \<Rightarrow> string \<Rightarrow> unit io" where
  \<comment> \<open>the \<open>for\<close> loop of \<open>handlePostback\<close> and the statements after it\<close>
  "postbackLoop env [] pl sid rid = sendMessage env sid ''Sorry, that action is not available right now.''"
| "postbackLoop env ((nm, p) # ps) pl sid rid =
     (case payloadMatches p pl of
        Inl e \<Rightarrow> io_throw e
      | Inr True \<Rightarrow>
          io_bind (call_start nm p (PostbackArgs sid rid pl)) (\<lambda>_. trackMessage sid ''postback'' True)
      | Inr False \<Rightarrow> postbackLoop env ps pl sid rid)"

definition handlePostback ::
  "env \<Rightarrow> PluginLoader \<Rightarrow> postback \<Rightarrow> string \<Rightarrow> string \<Rightarrow> int option \<Rightarrow> unit io" where
  "handlePostback env L pb sid rid ts =
     io_catch
       (let pl = (case JSON_parse env (pb_payload pb) of None \<Rightarrow> JStr (pb_payload pb) | Some j \<Rightarrow> j) in
        postbackLoop env (getPostbackPlugins L) pl sid rid)
       (\<lambda>e. trackMessage sid ''postback'' False)"

fun commentLoop :: "(string \<times> plugin) list \<Rightarrow> commentData \<Rightarrow> unit io" where
  \<comment> \<open>the \<open>for\<close> loop of \<open>handleComment\<close>\<close>
  "commentLoop [] cd = io_return ()"
| "commentLoop ((nm, p) # ps) cd =
     io_bind (call_run nm p cd)
       (\<lambda>handled. if handled then trackMessage (senderId cd) ''comment'' True else commentLoop ps cd)"

definition handleComment :: "env \<Rightarrow> PluginLoader \<Rightarrow> commentData \<Rightarrow> string \<Rightarrow> unit io" where
  "handleComment env L cd pageId =
     io_catch (commentLoop (getCommentPlugins L) cd)
       (\<lambda>e. trackMessage (senderId cd) ''comment'' False)"

definition handleQuickReply :: "env \<Rightarrow> PluginLoader \<Rightarrow> quick_reply \<Rightarrow> string \<Rightarrow> unit io" where
  "handleQuickReply env L qr sid =
     handlePostback env L \<lparr>pb_payload = qr_payload qr\<rparr> sid ''page'' (Some (now env))"

definition routeMessage :: "env \<Rightarrow> PluginLoader \<Rightarrow> message_body \<Rightarrow> string \<Rightarrow> string \<Rightarrow> unit io" where
  \<comment> \<open>the \<open>try\<close> block of \<open>handleMessage\<close> from the attachments up to the call of
      \<open>trackMessage\<close>\<close>
  "routeMessage env L m sid rid =
     (let txt = (case msg_text m of None \<Rightarrow> [] | Some s \<Rightarrow> s);
          atts = (case attachments m of None \<Rightarrow> [] | Some as \<Rightarrow> as) in
      io_bind (if atts \<noteq> [] then handleAttachments env atts sid else io_return ())
        (\<lambda>_. io_bind ([], getPrefix env sid)
           (\<lambda>userPrefix.
              let commandData =
                    (if userPrefix \<noteq> [] \<and> startsWith txt userPrefix then parseCommand txt userPrefix
                     else if bot_prefix env \<noteq> [] \<and> startsWith txt (bot_prefix env)
                       then parseCommand txt (bot_prefix env)
                     else None) in
              (case commandData of
                 Some cd \<Rightarrow> handleCommand env L cd sid rid
               | None \<Rightarrow> handleRegularMessage env txt sid))))"

definition apology :: string where
  "apology = ''Sorry, I encountered an error processing your message. Please try again.''"

definition handleMessage ::
  "env \<Rightarrow> PluginLoader \<Rightarrow> message_body \<Rightarrow> string \<Rightarrow> string \<Rightarrow> int option \<Rightarrow> unit io" where
  \<comment> \<open>\<open>return handleQuickReply(...)\<close> hands the promise back without awaiting it, so the
      \<open>catch\<close> block does not see its rejection\<close>
  "handleMessage env L m sid rid ts =
     (case quick_reply m of
        Some qr \<Rightarrow> handleQuickReply env L qr sid
      | None \<Rightarrow>
          io_catch
            (io_bind (routeMessage env L m sid rid) (\<lambda>_. trackMessage sid ''message'' True))
            (\<lambda>e. io_bind (trackMessage sid ''message'' False) (\<lambda>_. sendMessage env sid apology)))"

section \<open>The webhook server (index.js)\<close>

record event =
  sender :: "string option"
  recipient :: "string option"
  ev_message :: "message_body option"
  ev_postback :: "postback option"

record botState =
  messagesProcessed :: nat
  commentsProcessed :: nat
  postbacksProcessed :: nat

text \<open>
  The server's state: its own \<open>messageTracker\<close>, the counters of \<open>botState\<close>, the labels of
  every \<open>messageCounter.inc\<close>, the plugin loader, and all effects performed so far.
  \<open>sender\<close> and \<open>recipient\<close> are \<open>None\<close> when the event has no such object.
\<close>

record server =
  messageTracker :: MessageTracker
  botState :: botState
  messageCounter :: "(string \<times> string) list"
  pluginLoader :: PluginLoader
  performed :: "effect list"

definition settle :: "string \<Rightarrow> server \<Rightarrow> unit io \<Rightarrow> server" where
  \<comment> \<open>\<open>await\<close> of a handler inside the \<open>try\<close> of the event processor: a rejection goes to
      the \<open>catch\<close> block, which logs and counts it\<close>
  "settle kind S r =
     (let S' = S\<lparr>performed := performed S @ fst r\<rparr> in
      case snd r of
        Inr u \<Rightarrow> S'
      | Inl e \<Rightarrow> S'\<lparr>messageCounter := messageCounter S' @ [(kind, ''error'')]\<rparr>)"

definition processMessagingEvent :: "env \<Rightarrow> event \<Rightarrow> string \<Rightarrow> int option \<Rightarrow> server \<Rightarrow> server" where
  "processMessagingEvent env ev pageID ts S =
     (case sender ev of
        None \<Rightarrow> S\<lparr>messageCounter := messageCounter S @ [(''message'', ''error'')]\<rparr>
      | Some sid \<Rightarrow>
     (case recipient ev of
        None \<Rightarrow> S\<lparr>messageCounter := messageCounter S @ [(''message'', ''error'')]\<rparr>
      | Some rid \<Rightarrow>
     (case isDuplicate sid ts ''message'' (now env) (messageTracker S) of
        (True, t) \<Rightarrow> S\<lparr>messageTracker := t\<rparr>
      | (False, t) \<Rightarrow>
          let S1 = S\<lparr>messageTracker := track sid ts ''message'' (today env) t,
                     botState := (botState S)\<lparr>messagesProcessed := messagesProcessed (botState S) + 1\<rparr>,
                     messageCounter := messageCounter S @ [(''message'', ''received'')]\<rparr> in
          (case ev_message ev of
             Some m \<Rightarrow> settle ''message'' S1 (handleMessage env (pluginLoader S1) m sid rid ts)
           | None \<Rightarrow>
               (case ev_postback ev of
                  Some pb \<Rightarrow> settle ''message'' S1 (handlePostback env (pluginLoader S1) pb sid rid ts)
                | None \<Rightarrow> S1)))))"

record feed_value =
  item :: string
  verb :: string
  comment_id :: string
  post_id :: string
  from_user :: "(string \<times> string) option"
  fv_message :: "string option"
  created_time :: string

record change =
  field :: string
  cvalue :: "feed_value option"

definition processFeedEvent :: "env \<Rightarrow> change \<Rightarrow> string \<Rightarrow> int option \<Rightarrow> server \<Rightarrow> server" where
  "processFeedEvent env ch pageID ts S =
     (case cvalue ch of
        None \<Rightarrow> S
      | Some v \<Rightarrow>
          if field ch = ''feed'' \<and> item v = ''comment'' \<and> verb v = ''add'' then
            (case from_user v of
               None \<Rightarrow> S\<lparr>messageCounter := messageCounter S @ [(''comment'', ''error'')]\<rparr>
             | Some (fid, fname) \<Rightarrow>
                 (case isDuplicateComment (comment_id v) (now env) (messageTracker S) of
                    (True, t) \<Rightarrow> S\<lparr>messageTracker := t\<rparr>
                  | (False, t) \<Rightarrow>
                      let S1 = S\<lparr>messageTracker := trackComment (comment_id v) (today env) t,
                                 botState := (botState S)\<lparr>commentsProcessed := commentsProcessed (botState S) + 1\<rparr>,
                                 messageCounter := messageCounter S @ [(''comment'', ''received'')]\<rparr> in
                      settle ''comment'' S1
                        (handleComment env (pluginLoader S1)
                           \<lparr>commentId = comment_id v, postId = post_id v, senderId = fid, senderName = fname,
                            message = (case fv_message v of None \<Rightarrow> [] | Some s \<Rightarrow> s),
                            createdAt = created_time v\<rparr> pageID)))
          else S)"

record webhook_entry =
  entry_id :: string
  entry_time :: "int option"
  messaging :: "event list option"
  changes :: "change list option"

record webhook_body =
  object :: string
  entries :: "webhook_entry list"

text \<open>
  Every event of an entry is processed with the entry's \<open>time\<close> as its timestamp. The
  surroundings are read once for a body: the clock does not advance while it is processed.
\<close>

fun processMessagingEvents :: "env \<Rightarrow> event list \<Rightarrow> string \<Rightarrow> int option \<Rightarrow> server \<Rightarrow> server" where
  "processMessagingEvents env [] pageID ts S = S"
| "processMessagingEvents env (ev # evs) pageID ts S =
     processMessagingEvents env evs pageID ts (processMessagingEvent env ev pageID ts S)"

fun processFeedEvents :: "env \<Rightarrow> change list \<Rightarrow> string \<Rightarrow> int option \<Rightarrow> server \<Rightarrow> server" where
  "processFeedEvents env [] pageID ts S = S"
| "processFeedEvents env (ch # chs) pageID ts S =
     processFeedEvents env chs pageID ts (processFeedEvent env ch pageID ts S)"

definition processEntry :: "env \<Rightarrow> webhook_entry \<Rightarrow> server \<Rightarrow> server" where
  \<comment> \<open>the body of the loop over \<open>body.entry\<close>\<close>
  "processEntry env en S =
     (let S1 = (case messaging en of None \<Rightarrow> S
                | Some evs \<Rightarrow> processMessagingEvents env evs (entry_id en) (entry_time en) S) in
      case changes en of None \<Rightarrow> S1
      | Some chs \<Rightarrow> processFeedEvents env chs (entry_id en) (entry_time en) S1)"

definition processWebhookEvent :: "env \<Rightarrow> webhook_body \<Rightarrow> server \<Rightarrow> server" where
  "processWebhookEvent env body S =
     (if object body = ''page'' then fold (processEntry env) (entries body) S else S)"

fun deliverBodies :: "(env \<times> webhook_body) list \<Rightarrow> server \<Rightarrow> server" where
  \<comment> \<open>webhook deliveries handled one after the other, each in its own surroundings\<close>
  "deliverBodies [] S = S"
| "deliverBodies ((env, body) # ds) S = deliverBodies ds (processWebhookEvent env body S)"

section \<open>Sample plugins, events and states\<close>

definition listCommands :: "PluginLoader \<Rightarrow> string list" where
  \<comment> \<open>the registry keys of the command plugins a lookup sees, in order\<close>
  "listCommands L = map fst (getCommandPlugins L)"

definition commandNames :: "PluginLoader \<Rightarrow> string option list" where
  \<comment> \<open>the \<open>config.name\<close> of every registered command plugin, in order\<close>
  "commandNames L = map (\<lambda>(nm, p). case config p of None \<Rightarrow> None | Some c \<Rightarrow> name c) (getCommandPlugins L)"

definition ex_command :: "string \<Rightarrow> string list option \<Rightarrow> string list option \<Rightarrow> plugin" where
  \<comment> \<open>a command plugin in the shape of plugins/commands/ping.js: \<open>start\<close> answers the sender\<close>
  "ex_command n als deps =
     \<lparr>config = Some \<lparr>name = Some n, aliases = als, category = None\<rparr>, payload = None,
      start = Some (\<lambda>a. case a of CommandArgs sid as orig \<Rightarrow> ([SendMessage sid ''pong''], Inr ())
                            | PostbackArgs sid rid pl \<Rightarrow> ([], Inr ())),
      run = None, dependencies = deps, constructor_name = Some ''Object''\<rparr>"

definition ex_postback_plugin :: "string \<Rightarrow> plugin" where
  "ex_postback_plugin pl =
     \<lparr>config = None, payload = Some (JStr pl),
      start = Some (\<lambda>a. case a of PostbackArgs sid rid x \<Rightarrow> ([SendMessage sid pl], Inr ())
                            | CommandArgs sid as orig \<Rightarrow> ([], Inr ())),
      run = None, dependencies = None, constructor_name = Some ''Object''\<rparr>"

definition ex_reactor :: "bool io \<Rightarrow> plugin" where
  \<comment> \<open>a comment reactor whose \<open>run\<close> always behaves as given\<close>
  "ex_reactor r =
     \<lparr>config = None, payload = None, start = None, run = Some (\<lambda>cd. r),
      dependencies = None, constructor_name = Some ''Object''\<rparr>"

definition ex_file :: "string \<Rightarrow> plugin \<Rightarrow> plugin_file" where
  "ex_file fn p = \<lparr>fileName = fn, exports = Inr p\<rparr>"

definition ex_empty :: PluginLoader where
  "ex_empty = \<lparr>commands = [], postbacks_ns = [], comments_ns = [], duplicates_set = []\<rparr>"

definition ex_env :: env where
  "ex_env =
     \<lparr>bot_prefix = ''/'', adminUIDs = [], getPrefix = (\<lambda>u. Inr ''/''), sendOk = (\<lambda>r t. True),
      random = 0, JSON_parse = (\<lambda>s. None), now = 1000, today = ''2024-01-01''\<rparr>"

definition ex_later :: env where
  \<comment> \<open>the same surroundings six minutes later\<close>
  "ex_later = ex_env\<lparr>now := 361000\<rparr>"

definition ex_server :: "PluginLoader \<Rightarrow> server" where
  "ex_server L =
     \<lparr>messageTracker = newTracker ''2024-01-01'',
      botState = \<lparr>messagesProcessed = 0, commentsProcessed = 0, postbacksProcessed = 0\<rparr>,
      messageCounter = [], pluginLoader = L, performed = []\<rparr>"

definition ex_text :: "string \<Rightarrow> message_body" where
  "ex_text s = \<lparr>msg_text = Some s, attachments = None, quick_reply = None\<rparr>"

definition ex_message_event :: "string \<Rightarrow> string \<Rightarrow> event" where
  "ex_message_event sid s =
     \<lparr>sender = Some sid, recipient = Some ''page'', ev_message = Some (ex_text s), ev_postback = None\<rparr>"

definition ex_postback_event :: "string \<Rightarrow> string \<Rightarrow> event" where
  "ex_postback_event sid pl =
     \<lparr>sender = Some sid, recipient = Some ''page'', ev_message = None,
      ev_postback = Some \<lparr>pb_payload = pl\<rparr>\<rparr>"

definition ex_comment :: commentData where
  "ex_comment =
     \<lparr>commentId = ''c1'', postId = ''p1'', senderId = ''u1'', senderName = ''Ann'',
      message = ''nice game'', createdAt = ''2024-01-01T00:00:00''\<rparr>"

definition ex_postbacks :: PluginLoader where
  \<comment> \<open>two postback plugins, for the payloads A and B\<close>
  "ex_postbacks =
     loadFiles [ex_file ''a.js'' (ex_postback_plugin ''A''), ex_file ''b.js'' (ex_postback_plugin ''B'')]
       Postbacks ex_empty"

definition ex_two_postbacks :: webhook_body where
  \<comment> \<open>one entry that delivers two postbacks of the same sender\<close>
  "ex_two_postbacks =
     \<lparr>object = ''page'',
      entries = [\<lparr>entry_id = ''page'', entry_time = Some 5,
                  messaging = Some [ex_postback_event ''u1'' ''A'', ex_postback_event ''u1'' ''B''],
                  changes = None\<rparr>]\<rparr>"

definition ex_other_sender :: webhook_body where
  \<comment> \<open>one entry with a message of another sender\<close>
  "ex_other_sender =
     \<lparr>object = ''page'',
      entries = [\<lparr>entry_id = ''page'', entry_time = Some 7,
                  messaging = Some [ex_message_event ''u2'' ''hi''], changes = None\<rparr>]\<rparr>"

definition ex_reactors :: PluginLoader where
  \<comment> \<open>a comment namespace with two reactors: the first throws, the second would handle
      the comment\<close>
  "ex_reactors =
     ex_empty\<lparr>comments_ns :=
       [(''first'', ex_reactor ([], Inl (Error ''boom''))),
        (''second'', ex_reactor ([SendMessage ''u1'' ''thanks''], Inr True))]\<rparr>"

definition ex_dirs :: pluginPaths where
  \<comment> \<open>two command files, of which the second declares a dependency to install, two
      postback files and one comment reactor\<close>
  "ex_dirs =
     \<lparr>commands_dir =
        [ex_file ''ping.js'' (ex_command ''ping'' (Some [''pong'']) None),
         ex_file ''quote.js'' (ex_command ''quote'' None (Some [''axios'']))],
      postbacks_dir = [ex_file ''a.js'' (ex_postback_plugin ''A''), ex_file ''b.js'' (ex_postback_plugin ''B'')],
      comments_dir = [ex_file ''first.js'' (ex_reactor ([], Inr False))]\<rparr>"

definition listPostbacks :: "PluginLoader \<Rightarrow> string list" where
  "listPostbacks L = map fst (getPostbackPlugins L)"

definition listComments :: "PluginLoader \<Rightarrow> string list" where
  "listComments L = map fst (getCommentPlugins L)"

definition ex_same_name :: "plugin_file list" where
  \<comment> \<open>two command files with the same \<open>config.name\<close> and different aliases\<close>
  "ex_same_name =
     [ex_file ''balance.js'' (ex_command ''balance'' None None),
      ex_file ''bal.js'' (ex_command ''balance'' (Some [''bal'']) None)]"

definition ex_same_key :: "plugin_file list" where
  \<comment> \<open>two command files with the same \<open>config.name\<close> and the same aliases in another order\<close>
  "ex_same_key =
     [ex_file ''balance.js'' (ex_command ''balance'' (Some [''money'', ''bal'']) None),
      ex_file ''copy.js'' (ex_command ''balance'' (Some [''bal'', ''money'']) None)]"

definition ex_capital :: PluginLoader where
  \<comment> \<open>a command registered under a name with a capital letter\<close>
  "ex_capital = loadFiles [ex_file ''ping.js'' (ex_command ''Ping'' None None)] Commands ex_empty"

definition ex_lower :: PluginLoader where
  "ex_lower = loadFiles [ex_file ''ping.js'' (ex_command ''ping'' (Some [''pong'']) None)] Commands ex_empty"

section \<open>Unfolding the model on concrete inputs\<close>

lemmas tracker_defs =
  isDuplicate_def isDuplicateComment_def isDuplicatePostback_def messageKey_def template_num_def
  countDuplicate_def cleanOldEntries_def dropExpired_def track_def trackComment_def
  checkDailyReset_def zeroCounts_def newTracker_def JSON_stringify_def quote_def

lemmas loader_defs =
  loadPlugin_def validatePlugin_def getDuplicateKey_def registerPlugin_def sortAliases_def
  pluginName_def pluginFiles_def endsWith_def startsWith_def set_add_def type_name_def
  getCommandPlugins_def getPostbackPlugins_def getCommentPlugins_def namespace_def
  clearPlugins_def reloadAll_def loadAllPlugins_def loadPluginsOfType_def
  installsDependencies_def pluginDir_def completeLoad_def runLoop_def reloadAll_begin_def
  installed_def emptyLoader_def loadedFiles_def listCommands_def commandNames_def getStats_def

lemmas handler_defs =
  io_bind_def io_catch_def io_return_def io_throw_def sendMessage_def trackMessage_def
  call_start_def call_run_def handleUnknownCommand_def handleRegularMessage_def responses_def
  commandMatches_def handleCommand_def payloadMatches_def handlePostback_def handleComment_def
  handleQuickReply_def routeMessage_def handleMessage_def apology_def parseCommand_def trim_def
  toLowerCase_def lower_char_def is_space_def settle_def processMessagingEvent_def
  processEntry_def processWebhookEvent_def

lemmas example_defs =
  ex_command_def ex_postback_plugin_def ex_reactor_def ex_file_def ex_empty_def ex_env_def
  ex_later_def ex_server_def ex_text_def ex_message_event_def ex_postback_event_def ex_comment_def
  ex_postbacks_def ex_two_postbacks_def ex_other_sender_def ex_reactors_def ex_dirs_def listPostbacks_def listComments_def ex_same_name_def ex_same_key_def
  ex_capital_def ex_lower_def

section \<open>The duplicate gate of the messaging events\<close>

lemma settle_tracker: "messageTracker (settle k S r) = messageTracker S"
  by (simp add: settle_def Let_def split: sum.splits)

lemma settle_botState: "botState (settle k S r) = botState S"
  by (simp add: settle_def Let_def split: sum.splits)

lemma track_history: "messageHistory (track s ts ty d t) = messageHistory t"
  by (simp add: track_def checkDailyReset_def Let_def)

lemma isDuplicate_records:
  "messageHistory (snd (isDuplicate s ts ty clk t)) (messageKey s ts) \<noteq> None"
  by (simp add: isDuplicate_def countDuplicate_def Let_def)

lemma processMessagingEvent_records:
  assumes "sender e = Some s" and "recipient e = Some r"
  shows "messageHistory (messageTracker (processMessagingEvent env e pg ts S)) (messageKey s ts) \<noteq> None"
proof (cases "isDuplicate s ts ''message'' (now env) (messageTracker S)")
  case (Pair d t)
  have rec: "messageHistory t (messageKey s ts) \<noteq> None"
    using isDuplicate_records [of s ts "''message''" "now env" "messageTracker S"] Pair by simp
  show ?thesis
    using assms Pair rec
    by (cases d) (simp_all add: processMessagingEvent_def Let_def settle_tracker track_history
        split: option.splits)
qed

lemma processMessagingEvent_known:
  assumes "sender e = Some s" and "recipient e = Some r"
    and "messageHistory (messageTracker S) (messageKey s ts) \<noteq> None"
  shows "processMessagingEvent env e pg ts S = S\<lparr>messageTracker := countDuplicate (messageTracker S)\<rparr>"
  using assms by (simp add: processMessagingEvent_def isDuplicate_def Let_def)

lemma processMessagingEvent_repeat:
  assumes "sender e1 = Some s" and "recipient e1 = Some r1"
    and "sender e2 = Some s" and "recipient e2 = Some r2"
    and "S1 = processMessagingEvent env1 e1 pg1 ts S"
  shows "processMessagingEvent env2 e2 pg2 ts S1 = S1\<lparr>messageTracker := countDuplicate (messageTracker S1)\<rparr>"
  using processMessagingEvent_known [OF assms(3,4)] processMessagingEvent_records [OF assms(1,2)] assms(5)
  by simp

lemma isDuplicate_first_check:
  assumes "messageHistory t (messageKey s ts) = None"
  shows "fst (isDuplicate s ts ty clk t) = False"
    and "messageHistory (snd (isDuplicate s ts ty clk t)) (messageKey s ts)
           = Some \<lparr>timestamp = clk, etype = Some ty, expiresAt = clk + 300000\<rparr>"
  using assms by (simp_all add: isDuplicate_def Let_def)

lemma isDuplicate_repeat_counted:
  assumes "messageHistory t (messageKey s ts) \<noteq> None"
  shows "isDuplicate s ts ty clk t = (True, countDuplicate t)"
    and "duplicates (dailyCounts (countDuplicate t)) = duplicates (dailyCounts t) + 1"
  using assms by (simp_all add: isDuplicate_def countDuplicate_def Let_def)

lemma isDuplicate_after_sweep:
  assumes "messageHistory t k = Some d" and "expiresAt d < clk" and "k \<noteq> messageKey s ts"
    and "messageHistory t (messageKey s ts) = None"
  shows "messageHistory (snd (isDuplicate s ts ty clk t)) k = None"
  using assms by (simp add: isDuplicate_def cleanOldEntries_def dropExpired_def Let_def)

lemma message_counted_once:
  assumes "sender e = Some s" and "recipient e = Some r"
    and "messageHistory (messageTracker S) (messageKey s ts) = None"
    and "lastReset (messageTracker S) = today env"
  shows "messages (dailyCounts (messageTracker (processMessagingEvent env e pg ts S)))
           = messages (dailyCounts (messageTracker S)) + 1"
  using assms
  by (simp add: processMessagingEvent_def isDuplicate_def Let_def settle_tracker
      track_def checkDailyReset_def cleanOldEntries_def split: option.splits)

lemma comment_counted_once:
  assumes "cvalue ch = Some v" and "field ch = ''feed''" and "item v = ''comment''" and "verb v = ''add''"
    and "from_user v = Some u"
    and "commentHistory (messageTracker S) (comment_id v) = None"
    and "lastReset (messageTracker S) = today env"
  shows "comments (dailyCounts (messageTracker (processFeedEvent env ch pg ts S)))
           = comments (dailyCounts (messageTracker S)) + 1"
  using assms
  by (cases u) (simp add: processFeedEvent_def isDuplicateComment_def Let_def settle_tracker
      trackComment_def checkDailyReset_def)

text \<open>
  C1. The gate of \<open>processMessagingEvent\<close> is \<open>isDuplicate(senderId, timestamp)\<close> for every
  messaging event, postbacks included: the payload is not part of the key. After any event
  of a sender with some timestamp, a postback of the same sender with the same timestamp is
  dropped whatever its payload: nothing more is performed, no plugin is started, and only
  the duplicate counter moves.
\<close>

theorem postback_same_sender_timestamp_dropped:
  assumes "sender e1 = Some s" and "recipient e1 = Some r1"
    and "sender e2 = Some s" and "recipient e2 = Some r2"
    and "ev_postback e2 = Some pb"
  shows "performed (processMessagingEvent env2 e2 pg2 ts (processMessagingEvent env1 e1 pg1 ts S))
           = performed (processMessagingEvent env1 e1 pg1 ts S)
       \<and> duplicates (dailyCounts (messageTracker
             (processMessagingEvent env2 e2 pg2 ts (processMessagingEvent env1 e1 pg1 ts S))))
           = duplicates (dailyCounts (messageTracker (processMessagingEvent env1 e1 pg1 ts S))) + 1"
  using processMessagingEvent_repeat [OF assms(1-4) refl]
  by (simp add: countDuplicate_def)

theorem postback_same_sender_timestamp_dropped_witness:
  "sender (ex_postback_event ''u1'' ''A'') = Some ''u1''
   \<and> recipient (ex_postback_event ''u1'' ''A'') = Some ''page''
   \<and> sender (ex_postback_event ''u1'' ''B'') = Some ''u1''
   \<and> recipient (ex_postback_event ''u1'' ''B'') = Some ''page''
   \<and> ev_postback (ex_postback_event ''u1'' ''B'') = Some \<lparr>pb_payload = ''B''\<rparr>
   \<and> performed (processWebhookEvent ex_env ex_two_postbacks (ex_server ex_postbacks))
      = [PluginStart ''a'', SendMessage ''u1'' ''A'']
   \<and> handlePostback ex_env ex_postbacks \<lparr>pb_payload = ''B''\<rparr> ''u1'' ''page'' (Some 5)
      = ([PluginStart ''b'', SendMessage ''u1'' ''B''],
         Inl (TypeError ''messageTracker.trackMessage is not a function''))"
proof -
  have first: "performed (processMessagingEvent ex_env (ex_postback_event ''u1'' ''A'') ''page'' (Some 5)
      (ex_server ex_postbacks)) = [PluginStart ''a'', SendMessage ''u1'' ''A'']"
    by (simp add: tracker_defs loader_defs handler_defs example_defs Let_def)
  have "performed (processMessagingEvent ex_env (ex_postback_event ''u1'' ''B'') ''page'' (Some 5)
        (processMessagingEvent ex_env (ex_postback_event ''u1'' ''A'') ''page'' (Some 5) (ex_server ex_postbacks)))
      = performed (processMessagingEvent ex_env (ex_postback_event ''u1'' ''A'') ''page'' (Some 5)
          (ex_server ex_postbacks))"
    using postback_same_sender_timestamp_dropped
      [where ?e1.0 = "ex_postback_event ''u1'' ''A''" and s = "''u1''" and ?r1.0 = "''page''"
         and ?e2.0 = "ex_postback_event ''u1'' ''B''" and ?r2.0 = "''page''"
         and pb = "\<lparr>pb_payload = ''B''\<rparr>"]
    by (simp add: ex_postback_event_def)
  with first have body: "performed (processWebhookEvent ex_env ex_two_postbacks (ex_server ex_postbacks))
      = [PluginStart ''a'', SendMessage ''u1'' ''A'']"
    by (simp add: processWebhookEvent_def processEntry_def ex_two_postbacks_def)
  have alone: "handlePostback ex_env ex_postbacks \<lparr>pb_payload = ''B''\<rparr> ''u1'' ''page'' (Some 5)
      = ([PluginStart ''b'', SendMessage ''u1'' ''B''],
         Inl (TypeError ''messageTracker.trackMessage is not a function''))"
    by (simp add: tracker_defs loader_defs handler_defs example_defs Let_def)
  from body alone show ?thesis by (simp add: ex_postback_event_def)
qed

text \<open>
  C2. A key that was checked once is reported as a duplicate by the next check of the same
  kind at any later clock reading, also after \<open>expiresAt\<close>: the three checks test
  \<open>has(key)\<close> without reading \<open>expiresAt\<close>, \<open>isDuplicate\<close> sweeps only after that test,
  and the comment and postback checks never sweep.
\<close>

theorem checked_key_stays_duplicate:
  "fst (isDuplicate s ts ty clk2 (snd (isDuplicate s ts ty clk1 t))) = True
   \<and> fst (isDuplicateComment c clk2 (snd (isDuplicateComment c clk1 t))) = True
   \<and> fst (isDuplicatePostback s pl ts clk2 (snd (isDuplicatePostback s pl ts clk1 t))) = True"
proof (intro conjI)
  show "fst (isDuplicate s ts ty clk2 (snd (isDuplicate s ts ty clk1 t))) = True"
    by (simp add: isDuplicate_def countDuplicate_def Let_def)
  show "fst (isDuplicateComment c clk2 (snd (isDuplicateComment c clk1 t))) = True"
    by (simp add: isDuplicateComment_def countDuplicate_def)
  show "fst (isDuplicatePostback s pl ts clk2 (snd (isDuplicatePostback s pl ts clk1 t))) = True"
    by (simp add: isDuplicatePostback_def countDuplicate_def Let_def)
qed

theorem checked_key_stays_duplicate_witness:
  "isDuplicate ''u1'' (Some 5) ''message'' 0 (newTracker ''2024-01-01'')
     = (False, (newTracker ''2024-01-01'')
         \<lparr>messageHistory := [''u1_5'' \<mapsto> \<lparr>timestamp = 0, etype = Some ''message'', expiresAt = 300000\<rparr>]\<rparr>)
   \<and> fst (isDuplicate ''u1'' (Some 5) ''message'' 300001
        (snd (isDuplicate ''u1'' (Some 5) ''message'' 0 (newTracker ''2024-01-01'')))) = True"
  using checked_key_stays_duplicate [of "''u1''" "Some 5" "''message''" 300001 0 "newTracker ''2024-01-01''"]
  by (simp add: tracker_defs show_int_def show_nat.simps digit_def Let_def)

text \<open>
  C7. A postback that passes the duplicate gate is counted by \<open>track(senderId, timestamp)\<close>,
  whose type defaults to \<open>'message'\<close>, and by \<open>botState.messagesProcessed++\<close>: on a day
  without counter reset the messages counters go up by one and the postbacks counters of
  the tracker and of \<open>botState\<close> keep their values, whatever the handler does afterwards.
\<close>

theorem postback_counted_as_message:
  assumes "sender e = Some s" and "recipient e = Some r"
    and "ev_message e = None" and "ev_postback e = Some pb"
    and "messageHistory (messageTracker S) (messageKey s ts) = None"
    and "lastReset (messageTracker S) = today env"
  shows "dailyCounts (messageTracker (processMessagingEvent env e pg ts S))
           = (dailyCounts (messageTracker S))\<lparr>messages := messages (dailyCounts (messageTracker S)) + 1\<rparr>
       \<and> botState (processMessagingEvent env e pg ts S)
           = (botState S)\<lparr>messagesProcessed := messagesProcessed (botState S) + 1\<rparr>"
  using assms
  by (simp add: processMessagingEvent_def isDuplicate_def Let_def settle_tracker settle_botState
      track_def checkDailyReset_def cleanOldEntries_def)

theorem postback_counted_as_message_witness:
  "sender (ex_postback_event ''u1'' ''A'') = Some ''u1''
   \<and> recipient (ex_postback_event ''u1'' ''A'') = Some ''page''
   \<and> ev_message (ex_postback_event ''u1'' ''A'') = None
   \<and> ev_postback (ex_postback_event ''u1'' ''A'') = Some \<lparr>pb_payload = ''A''\<rparr>
   \<and> messageHistory (messageTracker (ex_server ex_postbacks)) (messageKey ''u1'' (Some 5)) = None
   \<and> lastReset (messageTracker (ex_server ex_postbacks)) = today ex_env
   \<and> dailyCounts (messageTracker
        (processMessagingEvent ex_env (ex_postback_event ''u1'' ''A'') ''page'' (Some 5) (ex_server ex_postbacks)))
      = \<lparr>messages = 1, comments = 0, postbacks = 0, duplicates = 0\<rparr>
   \<and> botState (processMessagingEvent ex_env (ex_postback_event ''u1'' ''A'') ''page'' (Some 5) (ex_server ex_postbacks))
      = \<lparr>messagesProcessed = 1, commentsProcessed = 0, postbacksProcessed = 0\<rparr>"
proof -
  have hyps: "sender (ex_postback_event ''u1'' ''A'') = Some ''u1''"
    "recipient (ex_postback_event ''u1'' ''A'') = Some ''page''"
    "ev_message (ex_postback_event ''u1'' ''A'') = None"
    "ev_postback (ex_postback_event ''u1'' ''A'') = Some \<lparr>pb_payload = ''A''\<rparr>"
    "messageHistory (messageTracker (ex_server ex_postbacks)) (messageKey ''u1'' (Some 5)) = None"
    "lastReset (messageTracker (ex_server ex_postbacks)) = today ex_env"
    by (simp_all add: ex_postback_event_def ex_server_def newTracker_def ex_env_def)
  show ?thesis
    using hyps postback_counted_as_message [OF hyps, of "''page''"]
    by (simp add: ex_server_def newTracker_def zeroCounts_def)
qed














lemma missing_timestamp_after_sweep:
  "performed (processMessagingEvent ex_later (ex_message_event ''u1'' ''/ping'') ''page'' None
       (deliverBodies [(ex_later, ex_other_sender)]
          (processMessagingEvent ex_env (ex_message_event ''u1'' ''hello'') ''page'' None (ex_server ex_lower))))
     = [SendMessage ''u1'' ''Thanks for your message!'', SendMessage ''u2'' ''Thanks for your message!'',
        PluginStart ''ping'', SendMessage ''u1'' ''pong'']"
  by (simp add: tracker_defs loader_defs handler_defs example_defs Let_def show_int_def show_nat.simps digit_def)

section \<open>What the handlers let escape\<close>

lemma io_bind_rejected: "snd m = Inl e \<Longrightarrow> io_bind m f = (fst m, Inl e)"
  by (cases m) (simp add: io_bind_def)

lemma handleComment_handled_rejects:
  assumes "getCommentPlugins L = (nm, p) # ps" and "run p = Some f" and "f cd = (t, Inr True)"
  shows "handleComment env L cd pg
           = (PluginRun nm # t, Inl (TypeError ''messageTracker.trackMessage is not a function''))"
  using assms
  by (simp add: handleComment_def call_run_def io_bind_def io_catch_def trackMessage_def io_throw_def)

lemma handlePostback_matched_rejects:
  assumes "getPostbackPlugins L = (nm, p) # ps" and "JSON_parse env (pb_payload pb) = Some pl"
    and "payloadMatches p pl = Inr True"
  shows "snd (handlePostback env L pb sid rid ts)
           = Inl (TypeError ''messageTracker.trackMessage is not a function'')"
proof (cases "call_start nm p (PostbackArgs sid rid pl)")
  case (Pair t r)
  then show ?thesis
    using assms
    by (cases r) (simp_all add: handlePostback_def io_bind_def io_catch_def trackMessage_def io_throw_def)
qed

text \<open>
  C3. \<open>handleMessage\<close> rejects for every message without a quick reply. Its \<open>try\<close> block
  ends in a call of \<open>messageTracker.trackMessage\<close>, which is not a method of
  \<open>MessageTracker\<close>, so the block always throws; the \<open>catch\<close> block calls the same missing
  method first, and that second \<open>TypeError\<close> leaves the function.
\<close>

theorem handleMessage_rejects:
  assumes "quick_reply m = None"
  shows "snd (handleMessage env L m sid rid ts)
           = Inl (TypeError ''messageTracker.trackMessage is not a function'')"
proof (cases "routeMessage env L m sid rid")
  case (Pair t r)
  then show ?thesis
    using assms
    by (cases r) (simp_all add: handleMessage_def io_catch_def io_bind_def trackMessage_def io_throw_def)
qed

theorem handleMessage_rejects_witness:
  "quick_reply (ex_text ''/ping now'') = None
   \<and> snd (handleMessage ex_env ex_lower (ex_text ''/ping now'') ''u1'' ''page'' (Some 5))
       = Inl (TypeError ''messageTracker.trackMessage is not a function'')"
  using handleMessage_rejects [of "ex_text ''/ping now''" ex_env ex_lower "''u1''" "''page''" "Some 5"]
  by (simp add: ex_text_def)

text \<open>
  C10. When the routing of a message without quick reply succeeds, the \<open>TypeError\<close> of the
  missing \<open>trackMessage\<close> enters the \<open>catch\<close> block, which calls \<open>trackMessage\<close> again
  before it would send the apology: \<open>handleMessage\<close> rejects with that error, and its
  effects are exactly those of the routing, with no apology sent.
\<close>

theorem routed_message_no_apology:
  assumes "quick_reply m = None" and "routeMessage env L m sid rid = (t, Inr ())"
  shows "handleMessage env L m sid rid ts
           = (t, Inl (TypeError ''messageTracker.trackMessage is not a function''))"
  using assms
  by (simp add: handleMessage_def io_catch_def io_bind_def trackMessage_def io_throw_def)

theorem routed_message_no_apology_witness:
  "quick_reply (ex_text ''/PONG'') = None
   \<and> routeMessage ex_env ex_lower (ex_text ''/PONG'') ''u1'' ''page''
       = ([PluginStart ''ping'', SendMessage ''u1'' ''pong''], Inr ())
   \<and> handleMessage ex_env ex_lower (ex_text ''/PONG'') ''u1'' ''page'' (Some 5)
       = ([PluginStart ''ping'', SendMessage ''u1'' ''pong''],
          Inl (TypeError ''messageTracker.trackMessage is not a function''))"
proof -
  have q: "quick_reply (ex_text ''/PONG'') = None"
    by (simp add: ex_text_def)
  have r: "routeMessage ex_env ex_lower (ex_text ''/PONG'') ''u1'' ''page''
       = ([PluginStart ''ping'', SendMessage ''u1'' ''pong''], Inr ())"
    by (simp add: loader_defs handler_defs example_defs Let_def)
  show ?thesis
    using q r routed_message_no_apology [OF q r, of "Some 5"] by simp
qed

theorem apology_counterexample:
  "routeMessage ex_env ex_lower (ex_text ''hello'') ''u1'' ''page''
     = ([SendMessage ''u1'' ''Thanks for your message!''], Inr ())
   \<and> handleMessage ex_env ex_lower (ex_text ''hello'') ''u1'' ''page'' (Some 5)
     = ([SendMessage ''u1'' ''Thanks for your message!''],
        Inl (TypeError ''messageTracker.trackMessage is not a function''))"
  by (simp add: loader_defs handler_defs example_defs Let_def)

lemma commentLoop_throw:
  assumes "run p = Some f" and "snd (f cd) = Inl e"
  shows "commentLoop (ps @ (nm, p) # qs) cd = commentLoop (ps @ [(nm, p)]) cd"
proof (induction ps)
  case Nil
  have "snd (call_run nm p cd) = Inl e"
    using assms by (cases "f cd") (simp add: call_run_def io_bind_def)
  then show ?case
    by (simp add: io_bind_rejected)
next
  case (Cons a ps)
  then show ?case
    by (cases a) (simp cong: if_cong)
qed

text \<open>
  C4. The loop over the comment reactors stands inside one \<open>try\<close> block. When the \<open>run\<close> of
  a reactor throws, the loop ends there: \<open>handleComment\<close> behaves as if the reactors
  registered after it were absent, so none of them is invoked for that comment.
\<close>

theorem reactor_throw_ends_chain:
  assumes "run p = Some f" and "snd (f cd) = Inl e"
    and "getCommentPlugins L = ps @ (nm, p) # qs"
    and "getCommentPlugins L' = ps @ [(nm, p)]"
  shows "handleComment env L cd pg = handleComment env L' cd pg"
  by (simp add: handleComment_def assms(3,4) commentLoop_throw [OF assms(1,2), of ps nm qs])

theorem reactor_throw_ends_chain_witness:
  "getCommentPlugins ex_reactors
     = [(''first'', ex_reactor ([], Inl (Error ''boom''))),
        (''second'', ex_reactor ([SendMessage ''u1'' ''thanks''], Inr True))]
   \<and> handleComment ex_env ex_reactors ex_comment ''page''
     = handleComment ex_env (ex_empty\<lparr>comments_ns := [(''first'', ex_reactor ([], Inl (Error ''boom'')))]\<rparr>)
         ex_comment ''page''"
proof -
  have g: "getCommentPlugins ex_reactors
     = [] @ (''first'', ex_reactor ([], Inl (Error ''boom'')))
          # [(''second'', ex_reactor ([SendMessage ''u1'' ''thanks''], Inr True))]"
    by (simp add: ex_reactors_def getCommentPlugins_def namespace_def)
  have g': "getCommentPlugins (ex_empty\<lparr>comments_ns := [(''first'', ex_reactor ([], Inl (Error ''boom'')))]\<rparr>)
     = [] @ [(''first'', ex_reactor ([], Inl (Error ''boom'')))]"
    by (simp add: getCommentPlugins_def namespace_def)
  have r: "run (ex_reactor ([], Inl (Error ''boom''))) = Some (\<lambda>cd. ([], Inl (Error ''boom'')))"
    by (simp add: ex_reactor_def)
  have "handleComment ex_env ex_reactors ex_comment ''page''
     = handleComment ex_env (ex_empty\<lparr>comments_ns := [(''first'', ex_reactor ([], Inl (Error ''boom'')))]\<rparr>)
         ex_comment ''page''"
    by (rule reactor_throw_ends_chain [OF r _ g g']) simp
  with g show ?thesis by simp
qed

theorem reactor_throw_counterexample:
  "handleComment ex_env ex_reactors ex_comment ''page''
     = ([PluginRun ''first''], Inl (TypeError ''messageTracker.trackMessage is not a function''))"
  by (simp add: loader_defs handler_defs example_defs)

section \<open>Parsing and looking up a command\<close>

lemma lower_char_idem: "lower_char (lower_char c) = lower_char c"
  by (simp add: lower_char_def)

lemma split_ws_first:
  "\<forall>c\<in>set tok. \<not> is_space c \<Longrightarrow> r = [] \<or> is_space (hd r) \<Longrightarrow> \<exists>ts. split_ws (tok @ r) = tok # ts"
proof (induction tok)
  case Nil
  then show ?case by (cases r) auto
next
  case (Cons c tok)
  then obtain ts where "split_ws (tok @ r) = tok # ts" by auto
  with Cons.prems show ?case by simp
qed

lemma rev_dropWhile_token:
  assumes "tok \<noteq> []" and "\<forall>c\<in>set tok. \<not> P c"
  shows "\<exists>r'. rev (dropWhile P (rev (tok @ r))) = tok @ r' \<and> (r' = [] \<or> (r \<noteq> [] \<and> hd r' = hd r))"
proof (cases "\<forall>x\<in>set r. P x")
  case True
  then have "dropWhile P (rev r @ rev tok) = dropWhile P (rev tok)"
    by (intro dropWhile_append2) simp
  then have "dropWhile P (rev (tok @ r)) = dropWhile P (rev tok)"
    by simp
  moreover have "dropWhile P (rev tok) = rev tok"
    using assms by (cases "rev tok") auto
  ultimately show ?thesis by simp
next
  case False
  then obtain x where x: "x \<in> set (rev r)" "\<not> P x" by auto
  have d: "dropWhile P (rev (tok @ r)) = dropWhile P (rev r) @ rev tok"
    using x by (simp add: dropWhile_append1)
  have ne: "dropWhile P (rev r) \<noteq> []"
    using x by (metis dropWhile_eq_Nil_conv)
  have "r = rev (dropWhile P (rev r)) @ rev (takeWhile P (rev r))"
    by (metis rev_append rev_rev_ident takeWhile_dropWhile_id)
  then have "hd (rev (dropWhile P (rev r))) = hd r"
    using ne by (metis hd_append2 rev_is_Nil_conv)
  with d ne False show ?thesis by auto
qed

lemma trim_token:
  assumes "tok \<noteq> []" and "\<forall>c\<in>set tok. \<not> is_space c"
  shows "\<exists>r'. trim (tok @ r) = tok @ r' \<and> (r' = [] \<or> (r \<noteq> [] \<and> hd r' = hd r))"
proof -
  have "dropWhile is_space (tok @ r) = tok @ r"
    using assms by (cases tok) auto
  then show ?thesis
    using rev_dropWhile_token [OF assms] by (simp add: trim_def)
qed

lemma parseCommand_token:
  assumes "pre \<noteq> []" and "tok \<noteq> []" and "\<forall>c\<in>set tok. \<not> is_space c"
    and "r = [] \<or> is_space (hd r)"
  shows "\<exists>as. parseCommand (pre @ tok @ r) pre
           = Some \<lparr>command = toLowerCase tok, args = as, original = pre @ tok @ r\<rparr>"
proof -
  obtain r' where r': "trim (tok @ r) = tok @ r'" "r' = [] \<or> (r \<noteq> [] \<and> hd r' = hd r)"
    using trim_token [OF assms(2,3)] by blast
  then have "r' = [] \<or> is_space (hd r')" using assms(4) by auto
  then obtain ts where "split_ws (tok @ r') = tok # ts"
    using split_ws_first [OF assms(3)] by blast
  then show ?thesis
    using assms(1,2) r'(1) by (simp add: parseCommand_def startsWith_def)
qed

lemma commandLoop_first_match:
  assumes "\<forall>q\<in>snd ` set ps. commandMatches q (command cd) = Inr False"
    and "commandMatches p (command cd) = Inr True"
    and "config p = Some c" and "category c \<noteq> Some ''admin'' \<or> sid \<in> set (adminUIDs env)"
  shows "commandLoop env (ps @ (nm, p) # qs) cd sid = call_start nm p (CommandArgs sid (args cd) (original cd))"
  using assms
proof (induction ps)
  case Nil
  then show ?case by auto
next
  case (Cons a ps)
  then show ?case by (cases a) auto
qed

text \<open>
  C9. The parser lower-cases the first token and the lookup compares it exactly with the
  registered name and aliases. For every casing of the token, parsing followed by lookup
  starts the first plugin in registration order whose name or aliases contain the
  lower-cased token, unless it is an admin command and the sender is no admin.
\<close>

theorem lowercased_token_found:
  assumes "pre \<noteq> []" and "tok \<noteq> []" and "\<forall>c\<in>set tok. \<not> is_space c"
    and "r = [] \<or> is_space (hd r)"
    and "getCommandPlugins L = ps @ (nm, p) # qs"
    and "\<forall>q\<in>snd ` set ps. commandMatches q (toLowerCase tok) = Inr False"
    and "commandMatches p (toLowerCase tok) = Inr True"
    and "config p = Some c" and "category c \<noteq> Some ''admin'' \<or> sid \<in> set (adminUIDs env)"
  shows "\<exists>cd. parseCommand (pre @ tok @ r) pre = Some cd
            \<and> command cd = toLowerCase tok
            \<and> toLowerCase (command cd) = command cd
            \<and> handleCommand env L cd sid rid
                = call_start nm p (CommandArgs sid (args cd) (pre @ tok @ r))"
proof -
  obtain as where p: "parseCommand (pre @ tok @ r) pre
      = Some \<lparr>command = toLowerCase tok, args = as, original = pre @ tok @ r\<rparr>"
    using parseCommand_token [OF assms(1-4)] by blast
  let ?cd = "\<lparr>command = toLowerCase tok, args = as, original = pre @ tok @ r\<rparr>"
  have "commandLoop env (ps @ (nm, p) # qs) ?cd sid
      = call_start nm p (CommandArgs sid (args ?cd) (original ?cd))"
    by (rule commandLoop_first_match [OF _ _ assms(8,9)]) (use assms(6,7) in simp_all)
  then have "handleCommand env L ?cd sid rid = call_start nm p (CommandArgs sid (args ?cd) (pre @ tok @ r))"
    by (simp add: handleCommand_def assms(5))
  moreover have "toLowerCase (command ?cd) = command ?cd"
    by (simp add: toLowerCase_def lower_char_idem)
  ultimately show ?thesis
    using p by simp
qed

theorem lowercased_token_found_witness:
  "getCommandPlugins ex_lower = [(''ping'', ex_command ''ping'' (Some [''pong'']) None)]
   \<and> commandMatches (ex_command ''ping'' (Some [''pong'']) None) (toLowerCase ''PoNg'') = Inr True
   \<and> (\<exists>cd. parseCommand (''/'' @ ''PoNg'' @ '' now'') ''/'' = Some cd
          \<and> command cd = toLowerCase ''PoNg''
          \<and> toLowerCase (command cd) = command cd
          \<and> handleCommand ex_env ex_lower cd ''u1'' ''page''
              = call_start ''ping'' (ex_command ''ping'' (Some [''pong'']) None)
                  (CommandArgs ''u1'' (args cd) (''/'' @ ''PoNg'' @ '' now'')))"
proof -
  have g: "getCommandPlugins ex_lower = [] @ (''ping'', ex_command ''ping'' (Some [''pong'']) None) # []"
    by (simp add: loader_defs example_defs)
  have m: "commandMatches (ex_command ''ping'' (Some [''pong'']) None) (toLowerCase ''PoNg'') = Inr True"
    by (simp add: commandMatches_def ex_command_def toLowerCase_def lower_char_def)
  have c: "config (ex_command ''ping'' (Some [''pong'']) None)
      = Some \<lparr>name = Some ''ping'', aliases = Some [''pong''], category = None\<rparr>"
    by (simp add: ex_command_def)
  have "\<exists>cd. parseCommand (''/'' @ ''PoNg'' @ '' now'') ''/'' = Some cd
          \<and> command cd = toLowerCase ''PoNg''
          \<and> toLowerCase (command cd) = command cd
          \<and> handleCommand ex_env ex_lower cd ''u1'' ''page''
              = call_start ''ping'' (ex_command ''ping'' (Some [''pong'']) None)
                  (CommandArgs ''u1'' (args cd) (''/'' @ ''PoNg'' @ '' now''))"
    by (rule lowercased_token_found [OF _ _ _ _ g _ m c]) (simp_all add: is_space_def)
  with g m show ?thesis by simp
qed

theorem capital_name_counterexample:
  "commandNames ex_capital = [Some ''Ping'']
   \<and> parseCommand ''/Ping'' ''/'' = Some \<lparr>command = ''ping'', args = [], original = ''/Ping''\<rparr>
   \<and> routeMessage ex_env ex_capital (ex_text ''/Ping'') ''u1'' ''page''
     = handleUnknownCommand ex_env ''ping'' ''u1''"
  by (simp add: loader_defs handler_defs example_defs Let_def)

section \<open>Registering plugins and reloading\<close>

lemma getKey_sortAliases: "getDuplicateKey (sortAliases p ty) ty = getDuplicateKey p ty"
  by (cases ty) (auto simp: getDuplicateKey_def sortAliases_def sorted_sort_id split: option.splits)

lemma validate_sortAliases: "validatePlugin (sortAliases p ty) ty = validatePlugin p ty"
  by (cases ty) (auto simp: validatePlugin_def sortAliases_def split: option.splits)

lemma loadPlugin_records_key:
  assumes "exports f = Inr p" and "validatePlugin p ty" and "getDuplicateKey p ty = Inr k"
  shows "k \<in> set (duplicates_set (loadPlugin f ty L))"
  using assms
  by (cases ty) (auto simp: loadPlugin_def registerPlugin_def getKey_sortAliases set_add_def Let_def)

text \<open>
  C6. Two valid command plugins with the same \<open>config.name\<close> and the same aliases up to
  order have the same duplicate key. Loaded into the empty registry, exactly the first is
  registered, under its file name; loading the second changes nothing in the loader, whose
  statistics therefore keep their values.
\<close>

theorem same_key_command_rejected:
  assumes "exports f1 = Inr p1" and "exports f2 = Inr p2"
    and "validatePlugin p1 Commands" and "validatePlugin p2 Commands"
    and "config p1 = Some c1" and "config p2 = Some c2"
    and "name c2 = name c1"
    and "sort (case aliases c2 of None \<Rightarrow> [] | Some a \<Rightarrow> a) = sort (case aliases c1 of None \<Rightarrow> [] | Some a \<Rightarrow> a)"
  shows "loadPlugin f2 Commands (loadPlugin f1 Commands L) = loadPlugin f1 Commands L
       \<and> getCommandPlugins (loadPlugin f2 Commands (loadPlugin f1 Commands (clearPlugins L)))
           = [(pluginName f1, sortAliases p1 Commands)]
       \<and> getStats (loadPlugin f2 Commands (loadPlugin f1 Commands (clearPlugins L)))
           = getStats (loadPlugin f1 Commands (clearPlugins L))"
proof -
  obtain k where k1: "getDuplicateKey p1 Commands = Inr k"
    using assms(5) by (simp add: getDuplicateKey_def)
  have k2: "getDuplicateKey p2 Commands = Inr k"
    using k1 assms(5-8) by (simp add: getDuplicateKey_def)
  have rej: "loadPlugin f2 Commands (loadPlugin f1 Commands M) = loadPlugin f1 Commands M" for M
    using loadPlugin_records_key [OF assms(1,3) k1, of M] assms(2,4) k2
    by (simp add: loadPlugin_def)
  have one: "getCommandPlugins (loadPlugin f1 Commands (clearPlugins L)) = [(pluginName f1, sortAliases p1 Commands)]"
    using assms(1,3) k1
    by (simp add: loadPlugin_def clearPlugins_def registerPlugin_def getKey_sortAliases
        getCommandPlugins_def namespace_def)
  show ?thesis
    using rej one by simp
qed

theorem same_key_command_rejected_witness:
  "loadPlugin (ex_file ''copy.js'' (ex_command ''balance'' (Some [''bal'', ''money'']) None)) Commands
     (loadPlugin (ex_file ''balance.js'' (ex_command ''balance'' (Some [''money'', ''bal'']) None)) Commands ex_empty)
     = loadPlugin (ex_file ''balance.js'' (ex_command ''balance'' (Some [''money'', ''bal'']) None)) Commands ex_empty
   \<and> getCommandPlugins
       (loadPlugin (ex_file ''copy.js'' (ex_command ''balance'' (Some [''bal'', ''money'']) None)) Commands
         (loadPlugin (ex_file ''balance.js'' (ex_command ''balance'' (Some [''money'', ''bal'']) None)) Commands
            (clearPlugins ex_empty)))
     = [(pluginName (ex_file ''balance.js'' (ex_command ''balance'' (Some [''money'', ''bal'']) None)),
         sortAliases (ex_command ''balance'' (Some [''money'', ''bal'']) None) Commands)]
   \<and> getStats
       (loadPlugin (ex_file ''copy.js'' (ex_command ''balance'' (Some [''bal'', ''money'']) None)) Commands
         (loadPlugin (ex_file ''balance.js'' (ex_command ''balance'' (Some [''money'', ''bal'']) None)) Commands
            (clearPlugins ex_empty)))
     = getStats
         (loadPlugin (ex_file ''balance.js'' (ex_command ''balance'' (Some [''money'', ''bal'']) None)) Commands
            (clearPlugins ex_empty))"
  by (rule same_key_command_rejected
        [where ?p2.0 = "ex_command ''balance'' (Some [''bal'', ''money'']) None"
           and ?c1.0 = "\<lparr>name = Some ''balance'', aliases = Some [''money'', ''bal''], category = None\<rparr>"
           and ?c2.0 = "\<lparr>name = Some ''balance'', aliases = Some [''bal'', ''money''], category = None\<rparr>"])
     (simp_all add: ex_file_def ex_command_def validatePlugin_def less_eq_char_def less_char_def)

theorem same_name_counterexample:
  "commandNames (loadFiles ex_same_name Commands ex_empty) = [Some ''balance'', Some ''balance'']
   \<and> listCommands (loadFiles ex_same_name Commands ex_empty) = [''balance'', ''bal'']
   \<and> stat_commands (getStats (loadFiles ex_same_name Commands ex_empty)) = 2"
  by (simp add: loader_defs example_defs)

lemma kindKey_iff: "kindKey ty k \<longleftrightarrow> (\<exists>r. k = type_name ty @ '':'' @ r)"
proof
  assume "kindKey ty k"
  then have "take (length (type_name ty @ '':'')) k = type_name ty @ '':''"
    by (simp add: kindKey_def startsWith_def)
  then have "k = (type_name ty @ '':'') @ drop (length (type_name ty @ '':'')) k"
    by (metis append_take_drop_id)
  then show "\<exists>r. k = type_name ty @ '':'' @ r" by auto
next
  assume "\<exists>r. k = type_name ty @ '':'' @ r"
  then show "kindKey ty k" by (auto simp: kindKey_def startsWith_def)
qed

lemma key_kind: "getDuplicateKey p ty = Inr k \<Longrightarrow> kindKey ty k"
  unfolding kindKey_iff
  by (cases ty) (auto simp: getDuplicateKey_def Let_def split: option.splits)

lemma kind_distinct: "ty' \<noteq> ty \<Longrightarrow> kindKey ty k \<Longrightarrow> \<not> kindKey ty' k"
  unfolding kindKey_iff
  by (cases ty; cases ty') (auto simp: type_name_def)

lemma filter_set_add: "filter P (set_add k ks) = (if P k then set_add k (filter P ks) else filter P ks)"
  by (auto simp: set_add_def)

lemma namespace_register:
  "namespace ty' (registerPlugin p ty nm L)
     = (if ty' = ty then map_set nm p (namespace ty L) else namespace ty' L)"
  by (cases ty; cases ty') (auto simp: registerPlugin_def namespace_def Let_def split: sum.splits)

lemma duplicates_register:
  "duplicates_set (registerPlugin p ty nm L)
     = (case getDuplicateKey p ty of Inl e \<Rightarrow> duplicates_set L | Inr k \<Rightarrow> set_add k (duplicates_set L))"
  by (cases ty) (auto simp: registerPlugin_def Let_def split: sum.splits)

lemma register_view_other:
  "ty' \<noteq> ty \<Longrightarrow> kindView ty' (registerPlugin p ty nm L) = kindView ty' L"
  using kind_distinct [of ty' ty] key_kind [of p ty]
  by (auto simp: kindView_def namespace_register duplicates_register filter_set_add split: sum.splits)

lemma register_view_same:
  "kindView ty L = kindView ty L' \<Longrightarrow> kindView ty (registerPlugin p ty nm L) = kindView ty (registerPlugin p ty nm L')"
  using key_kind [of p ty]
  by (auto simp: kindView_def namespace_register duplicates_register filter_set_add split: sum.splits)

lemma member_view:
  assumes "kindKey ty k" and "kindView ty L = kindView ty L'"
  shows "k \<in> set (duplicates_set L) \<longleftrightarrow> k \<in> set (duplicates_set L')"
proof -
  have "k \<in> set (filter (kindKey ty) (duplicates_set L)) \<longleftrightarrow> k \<in> set (filter (kindKey ty) (duplicates_set L'))"
    using assms(2) by (simp add: kindView_def)
  then show ?thesis using assms(1) by simp
qed

lemma loadPlugin_view_other:
  "ty' \<noteq> ty \<Longrightarrow> kindView ty' (loadPlugin f ty L) = kindView ty' L"
  by (auto simp: loadPlugin_def register_view_other split: sum.splits)

lemma loadPlugin_view_same:
  assumes "kindView ty L = kindView ty L'"
  shows "kindView ty (loadPlugin f ty L) = kindView ty (loadPlugin f ty L')"
  using assms member_view [OF key_kind assms] register_view_same [OF assms]
  by (auto simp: loadPlugin_def split: sum.splits)

lemma installs_view:
  assumes "kindView ty L = kindView ty L'"
  shows "installsDependencies a f ty L = installsDependencies a f ty L'"
  using member_view [OF key_kind assms]
  by (auto simp: installsDependencies_def split: sum.splits)

lemma completeLoad_eq:
  "installsDependencies a f ty L \<Longrightarrow> completeLoad f ty L = loadPlugin f ty L"
  by (auto simp: installsDependencies_def completeLoad_def loadPlugin_def split: sum.splits)

lemma loadFiles_view_other:
  "ty' \<noteq> ty \<Longrightarrow> kindView ty' (loadFiles fs ty L) = kindView ty' L"
  by (induction fs arbitrary: L) (simp_all add: loadPlugin_view_other)

lemma loadFiles_view_same:
  "kindView ty L = kindView ty L' \<Longrightarrow> kindView ty (loadFiles fs ty L) = kindView ty (loadFiles fs ty L')"
proof (induction fs arbitrary: L L')
  case Nil
  then show ?case by simp
next
  case (Cons f fs)
  have "kindView ty (loadPlugin f ty L) = kindView ty (loadPlugin f ty L')"
    by (rule loadPlugin_view_same [OF Cons.prems])
  then have "kindView ty (loadFiles fs ty (loadPlugin f ty L)) = kindView ty (loadFiles fs ty (loadPlugin f ty L'))"
    by (rule Cons.IH)
  then show ?case by simp
qed

lemma loadFiles_append: "loadFiles (xs @ ys) ty L = loadFiles ys ty (loadFiles xs ty L)"
  by (induction xs arbitrary: L) simp_all

lemma advance_spec:
  "advance a fs ty L = (L', w) \<Longrightarrow>
     \<exists>n\<le>length fs. w = drop n fs \<and> L' = loadFiles (take n fs) ty L
        \<and> (w \<noteq> [] \<longrightarrow> installsDependencies a (hd w) ty L')"
proof (induction fs arbitrary: L)
  case Nil
  then show ?case by simp
next
  case (Cons f fs)
  show ?case
  proof (cases "installsDependencies a f ty L")
    case True
    with Cons.prems have "w = drop 0 (f # fs) \<and> L' = loadFiles (take 0 (f # fs)) ty L
        \<and> (w \<noteq> [] \<longrightarrow> installsDependencies a (hd w) ty L')" by auto
    then show ?thesis by blast
  next
    case False
    with Cons.prems have "advance a fs ty (loadPlugin f ty L) = (L', w)" by simp
    then obtain n where "n \<le> length fs" "w = drop n fs" "L' = loadFiles (take n fs) ty (loadPlugin f ty L)"
      "w \<noteq> [] \<longrightarrow> installsDependencies a (hd w) ty L'"
      using Cons.IH by blast
    then have "Suc n \<le> length (f # fs) \<and> w = drop (Suc n) (f # fs) \<and> L' = loadFiles (take (Suc n) (f # fs)) ty L
        \<and> (w \<noteq> [] \<longrightarrow> installsDependencies a (hd w) ty L')" by simp
    then show ?thesis by blast
  qed
qed

lemma inv_load:
  assumes "reload_inv dirs Q" and "m \<le> length (waiting Q ty)"
  shows "reload_inv dirs (Q\<lparr>loader := loadFiles (take m (waiting Q ty)) ty (loader Q),
                            waiting := (waiting Q)(ty := drop m (waiting Q ty))\<rparr>)"
  unfolding reload_inv_def
proof
  fix ty'
  let ?Q' = "Q\<lparr>loader := loadFiles (take m (waiting Q ty)) ty (loader Q),
                 waiting := (waiting Q)(ty := drop m (waiting Q ty))\<rparr>"
  let ?fs = "pluginDir dirs ty'"
  obtain n where n: "n \<le> length ?fs" "waiting Q ty' = drop n ?fs"
      "kindView ty' (loader Q) = kindView ty' (loadFiles (take n ?fs) ty' emptyLoader)"
    using assms(1) unfolding reload_inv_def by blast
  show "\<exists>n\<le>length ?fs. waiting ?Q' ty' = drop n ?fs \<and>
          kindView ty' (loader ?Q') = kindView ty' (loadFiles (take n ?fs) ty' emptyLoader)"
  proof (cases "ty' = ty")
    case False
    then have "kindView ty' (loader ?Q') = kindView ty' (loader Q)"
      by (simp add: loadFiles_view_other)
    with n False show ?thesis by auto
  next
    case True
    have le: "n + m \<le> length ?fs" using assms(2) n(1,2) True by simp
    have w: "waiting ?Q' ty' = drop (n + m) ?fs"
      using True n(2) by (simp add: add.commute)
    have "kindView ty' (loader ?Q') = kindView ty' (loadFiles (take m (drop n ?fs)) ty' (loader Q))"
      using True n(2) by simp
    also have "\<dots> = kindView ty' (loadFiles (take m (drop n ?fs)) ty' (loadFiles (take n ?fs) ty' emptyLoader))"
      by (rule loadFiles_view_same [OF n(3)])
    also have "\<dots> = kindView ty' (loadFiles (take (n + m) ?fs) ty' emptyLoader)"
      by (simp add: take_add loadFiles_append)
    finally show ?thesis using le w by blast
  qed
qed

lemma blocked_other:
  assumes "ty' \<noteq> ty" and "reload_blocked a Q ty'"
  shows "reload_blocked a (Q\<lparr>loader := loadFiles xs ty (loader Q), waiting := (waiting Q)(ty := w)\<rparr>) ty'"
  using assms installs_view [OF loadFiles_view_other [OF assms(1), of xs "loader Q"]]
  by (simp add: reload_blocked_def)

lemma runLoop_eq:
  obtains m where "m \<le> length (waiting Q ty)"
    and "runLoop a ty Q = Q\<lparr>loader := loadFiles (take m (waiting Q ty)) ty (loader Q),
                            waiting := (waiting Q)(ty := drop m (waiting Q ty))\<rparr>"
    and "reload_blocked a (runLoop a ty Q) ty"
proof (cases "advance a (waiting Q ty) ty (loader Q)")
  case (Pair L' w)
  from advance_spec [OF Pair] obtain m where m: "m \<le> length (waiting Q ty)" "w = drop m (waiting Q ty)"
      "L' = loadFiles (take m (waiting Q ty)) ty (loader Q)"
      "w \<noteq> [] \<longrightarrow> installsDependencies a (hd w) ty L'" by blast
  have "runLoop a ty Q = Q\<lparr>loader := loadFiles (take m (waiting Q ty)) ty (loader Q),
                            waiting := (waiting Q)(ty := drop m (waiting Q ty))\<rparr>"
    using Pair m by (simp add: runLoop_def)
  moreover have "reload_blocked a (runLoop a ty Q) ty"
    using Pair m by (simp add: runLoop_def reload_blocked_def)
  ultimately show thesis using that m(1) by blast
qed

lemma runLoop_inv:
  assumes "reload_inv dirs Q"
  shows "reload_inv dirs (runLoop a ty Q)"
    and "reload_blocked a (runLoop a ty Q) ty"
    and "ty' \<noteq> ty \<Longrightarrow> reload_blocked a Q ty' \<Longrightarrow> reload_blocked a (runLoop a ty Q) ty'"
proof -
  obtain m where m: "m \<le> length (waiting Q ty)"
    "runLoop a ty Q = Q\<lparr>loader := loadFiles (take m (waiting Q ty)) ty (loader Q),
                        waiting := (waiting Q)(ty := drop m (waiting Q ty))\<rparr>"
    "reload_blocked a (runLoop a ty Q) ty"
    by (rule runLoop_eq)
  show "reload_inv dirs (runLoop a ty Q)"
    using inv_load [OF assms m(1)] m(2) by simp
  show "reload_blocked a (runLoop a ty Q) ty" by (rule m(3))
  show "ty' \<noteq> ty \<Longrightarrow> reload_blocked a Q ty' \<Longrightarrow> reload_blocked a (runLoop a ty Q) ty'"
    using blocked_other [of ty' ty a Q] m(2) by simp
qed

lemma clearPlugins_empty: "clearPlugins L = emptyLoader"
  by (simp add: clearPlugins_def emptyLoader_def)

lemma reloadAll_begin_inv:
  "reload_inv dirs (reloadAll_begin a dirs L) \<and> (\<forall>ty. reload_blocked a (reloadAll_begin a dirs L) ty)"
proof -
  let ?Q0 = "\<lparr>loader = clearPlugins L, waiting = pluginDir dirs\<rparr>"
  let ?Q1 = "runLoop a Commands ?Q0"
  let ?Q2 = "runLoop a Postbacks ?Q1"
  let ?Q3 = "runLoop a Comments ?Q2"
  have i0: "reload_inv dirs ?Q0"
    unfolding reload_inv_def
  proof
    fix ty
    have "0 \<le> length (pluginDir dirs ty) \<and> waiting ?Q0 ty = drop 0 (pluginDir dirs ty) \<and>
        kindView ty (loader ?Q0) = kindView ty (loadFiles (take 0 (pluginDir dirs ty)) ty emptyLoader)"
      by (simp add: clearPlugins_empty)
    then show "\<exists>n\<le>length (pluginDir dirs ty). waiting ?Q0 ty = drop n (pluginDir dirs ty) \<and>
        kindView ty (loader ?Q0) = kindView ty (loadFiles (take n (pluginDir dirs ty)) ty emptyLoader)"
      by blast
  qed
  have i1: "reload_inv dirs ?Q1" and b1: "reload_blocked a ?Q1 Commands"
    using runLoop_inv(1,2) [OF i0] by blast+
  have i2: "reload_inv dirs ?Q2" and b2: "reload_blocked a ?Q2 Postbacks" "reload_blocked a ?Q2 Commands"
    using runLoop_inv(1,2) [OF i1] runLoop_inv(3) [OF i1 _ b1, of Postbacks] by simp_all
  have i3: "reload_inv dirs ?Q3" and b3: "reload_blocked a ?Q3 Comments" "reload_blocked a ?Q3 Postbacks"
      "reload_blocked a ?Q3 Commands"
    using runLoop_inv(1,2) [OF i2] runLoop_inv(3) [OF i2 _ b2(1), of Comments]
      runLoop_inv(3) [OF i2 _ b2(2), of Comments] by simp_all
  have "reload_blocked a ?Q3 ty" for ty
    using b3 by (cases ty) simp_all
  with i3 show ?thesis by (simp add: reloadAll_begin_def)
qed

lemma installed_inv:
  assumes "reload_inv dirs Q" and "\<forall>ty. reload_blocked a Q ty" and "waiting Q ty \<noteq> []"
  shows "reload_inv dirs (installed a ty Q) \<and> (\<forall>ty'. reload_blocked a (installed a ty Q) ty')"
proof -
  obtain f fs where w: "waiting Q ty = f # fs"
    using assms(3) by (cases "waiting Q ty") auto
  have "reload_blocked a Q ty"
    using assms(2) by blast
  then have "installsDependencies a f ty (loader Q)"
    using w by (simp add: reload_blocked_def)
  then have c: "completeLoad f ty (loader Q) = loadFiles (take 1 (waiting Q ty)) ty (loader Q)"
    using w by (simp add: completeLoad_eq)
  let ?Q1 = "Q\<lparr>loader := loadFiles (take 1 (waiting Q ty)) ty (loader Q),
                 waiting := (waiting Q)(ty := drop 1 (waiting Q ty))\<rparr>"
  have q: "installed a ty Q = runLoop a ty ?Q1"
    using w c by (simp add: installed_def)
  have i1: "reload_inv dirs ?Q1"
    by (rule inv_load [OF assms(1)]) (simp add: w)
  have b1: "reload_blocked a ?Q1 ty'" if "ty' \<noteq> ty" for ty'
    using blocked_other [OF that, of a Q] assms(2) by simp
  have "reload_blocked a (runLoop a ty ?Q1) ty'" for ty'
  proof (cases "ty' = ty")
    case True
    then show ?thesis using runLoop_inv(2) [OF i1] by simp
  next
    case False
    then show ?thesis using runLoop_inv(3) [OF i1 False b1] by simp
  qed
  then show ?thesis
    using runLoop_inv(1) [OF i1] q by simp
qed

lemma reloadAll_states_inv:
  "Q \<in> reloadAll_states a dirs L \<Longrightarrow> reload_inv dirs Q \<and> (\<forall>ty. reload_blocked a Q ty)"
proof (induction rule: reloadAll_states.induct)
  case first
  show ?case by (rule reloadAll_begin_inv)
next
  case (later Q ty)
  then show ?case using installed_inv by blast
qed

lemma reloadAll_namespace:
  "namespace ty (reloadAll dirs L) = namespace ty (loadFiles (pluginDir dirs ty) ty emptyLoader)"
proof -
  let ?c = "pluginDir dirs Commands" and ?p = "pluginDir dirs Postbacks" and ?m = "pluginDir dirs Comments"
  have r: "reloadAll dirs L = loadFiles ?m Comments (loadFiles ?p Postbacks (loadFiles ?c Commands emptyLoader))"
    by (simp add: reloadAll_def loadAllPlugins_def loadPluginsOfType_def pluginDir_def clearPlugins_empty)
  have "kindView ty (reloadAll dirs L) = kindView ty (loadFiles (pluginDir dirs ty) ty emptyLoader)"
  proof (cases ty)
    case Commands
    then show ?thesis by (simp add: r loadFiles_view_other)
  next
    case Postbacks
    have "kindView Postbacks (loadFiles ?p Postbacks (loadFiles ?c Commands emptyLoader))
        = kindView Postbacks (loadFiles ?p Postbacks emptyLoader)"
      by (rule loadFiles_view_same) (simp add: loadFiles_view_other)
    with Postbacks show ?thesis by (simp add: r loadFiles_view_other)
  next
    case Comments
    have "kindView Comments (loadFiles ?m Comments (loadFiles ?p Postbacks (loadFiles ?c Commands emptyLoader)))
        = kindView Comments (loadFiles ?m Comments emptyLoader)"
      by (rule loadFiles_view_same) (simp add: loadFiles_view_other)
    with Comments show ?thesis by (simp add: r)
  qed
  then show ?thesis by (simp add: kindView_def)
qed

text \<open>
  C5. \<open>reloadAll\<close> empties the three namespaces and the duplicate keys first, and the three
  kinds then load side by side, each plugin entering the live registry as its load ends;
  nothing is swapped in afterwards. In every state that a lookup can see while the reload
  goes on, the namespace of each kind is what loading the files of that kind before the
  waiting ones into the empty registry gives: the files before the one whose dependencies
  are being installed for a kind that still waits, and all its files, as after the whole
  reload, for a kind that has finished.
\<close>

theorem reload_shows_partly_loaded_registry:
  assumes "Q \<in> reloadAll_states a dirs L"
  shows "pluginDir dirs ty = loadedFiles dirs ty Q @ waiting Q ty
       \<and> namespace ty (loader Q) = namespace ty (loadFiles (loadedFiles dirs ty Q) ty emptyLoader)
       \<and> (waiting Q ty \<noteq> [] \<longrightarrow> installsDependencies a (hd (waiting Q ty)) ty (loader Q))
       \<and> (waiting Q ty = [] \<longrightarrow> namespace ty (loader Q) = namespace ty (reloadAll dirs L))"
proof -
  have inv: "reload_inv dirs Q" and blk: "reload_blocked a Q ty"
    using reloadAll_states_inv [OF assms] by simp_all
  obtain n where n: "n \<le> length (pluginDir dirs ty)" "waiting Q ty = drop n (pluginDir dirs ty)"
      "kindView ty (loader Q) = kindView ty (loadFiles (take n (pluginDir dirs ty)) ty emptyLoader)"
    using inv unfolding reload_inv_def by blast
  have l: "loadedFiles dirs ty Q = take n (pluginDir dirs ty)"
    using n(1,2) by (simp add: loadedFiles_def)
  have ns: "namespace ty (loader Q) = namespace ty (loadFiles (loadedFiles dirs ty Q) ty emptyLoader)"
    using n(3) l by (simp add: kindView_def)
  have all: "namespace ty (loader Q) = namespace ty (reloadAll dirs L)" if "waiting Q ty = []"
    using that n(1,2) ns l by (simp add: reloadAll_namespace)
  show ?thesis
    using l n(2) ns blk all by (simp add: reload_blocked_def)
qed

theorem reload_shows_partly_loaded_registry_witness:
  "reloadAll_begin True ex_dirs (reloadAll ex_dirs ex_empty)
     \<in> reloadAll_states True ex_dirs (reloadAll ex_dirs ex_empty)
   \<and> map fileName (loadedFiles ex_dirs Commands (reloadAll_begin True ex_dirs (reloadAll ex_dirs ex_empty)))
       = [''ping.js'']
   \<and> map fileName (waiting (reloadAll_begin True ex_dirs (reloadAll ex_dirs ex_empty)) Commands)
       = [''quote.js'']
   \<and> namespace Commands (loader (reloadAll_begin True ex_dirs (reloadAll ex_dirs ex_empty)))
       = namespace Commands
           (loadFiles (loadedFiles ex_dirs Commands (reloadAll_begin True ex_dirs (reloadAll ex_dirs ex_empty)))
              Commands emptyLoader)"
proof -
  have m: "reloadAll_begin True ex_dirs (reloadAll ex_dirs ex_empty)
     \<in> reloadAll_states True ex_dirs (reloadAll ex_dirs ex_empty)"
    by (rule reloadAll_states.first)
  have w: "map fileName (waiting (reloadAll_begin True ex_dirs (reloadAll ex_dirs ex_empty)) Commands)
       = [''quote.js'']"
    by (simp add: tracker_defs loader_defs example_defs)
  have l: "map fileName (loadedFiles ex_dirs Commands (reloadAll_begin True ex_dirs (reloadAll ex_dirs ex_empty)))
       = [''ping.js'']"
    by (simp add: tracker_defs loader_defs example_defs)
  show ?thesis
    using m w l reload_shows_partly_loaded_registry [OF m, of Commands] by simp
qed

theorem reload_counterexample:
  "listCommands (reloadAll ex_dirs ex_empty) = [''ping'', ''quote'']
   \<and> listCommands (reloadAll ex_dirs (reloadAll ex_dirs ex_empty)) = [''ping'', ''quote'']
   \<and> listCommands (loader (reloadAll_begin True ex_dirs (reloadAll ex_dirs ex_empty))) = [''ping'']
   \<and> listPostbacks (loader (reloadAll_begin True ex_dirs (reloadAll ex_dirs ex_empty))) = [''a'', ''b'']
   \<and> listComments (loader (reloadAll_begin True ex_dirs (reloadAll ex_dirs ex_empty))) = [''first'']
   \<and> map fileName (waiting (reloadAll_begin True ex_dirs (reloadAll ex_dirs ex_empty)) Commands)
       = [''quote.js'']"
proof (intro conjI)
  show "listCommands (reloadAll ex_dirs ex_empty) = [''ping'', ''quote'']"
    by (simp add: tracker_defs loader_defs example_defs)
  show "listCommands (reloadAll ex_dirs (reloadAll ex_dirs ex_empty)) = [''ping'', ''quote'']"
    by (simp add: tracker_defs loader_defs example_defs)
  show "listCommands (loader (reloadAll_begin True ex_dirs (reloadAll ex_dirs ex_empty))) = [''ping'']"
    by (simp add: tracker_defs loader_defs example_defs)
  show "listPostbacks (loader (reloadAll_begin True ex_dirs (reloadAll ex_dirs ex_empty))) = [''a'', ''b'']"
    by (simp add: tracker_defs loader_defs example_defs)
  show "listComments (loader (reloadAll_begin True ex_dirs (reloadAll ex_dirs ex_empty))) = [''first'']"
    by (simp add: tracker_defs loader_defs example_defs)
  show "map fileName (waiting (reloadAll_begin True ex_dirs (reloadAll ex_dirs ex_empty)) Commands)
       = [''quote.js'']"
    by (simp add: tracker_defs loader_defs example_defs)
qed

end
